theory Spec2Isabelle
  imports Main "HOL-Library.Char_ord" "HOL-Library.List_Lexorder"
begin

section \<open>The data of libgtftk that get\_list.c reads and writes\<close>

text \<open>
  The header libgtftk.h is not part of the sources at hand, so every structure carries
  exactly the fields that get\_list.c touches. A field whose C name is also a constant
  of HOL, or the name of another field here, carries the structure's name as a suffix.
\<close>

text \<open>\<^verbatim>\<open>ROW_LIST\<close>: one entry of an index, read through \<^verbatim>\<open>datap->token\<close> and
  \<^verbatim>\<open>datap->nb_row\<close> (a C \<^verbatim>\<open>int\<close>, printed with \<^verbatim>\<open>%d\<close>).\<close>

record ROW_LIST =
  token :: string
  nb_row :: int

text \<open>The binary tree that \<^verbatim>\<open>tsearch\<close> builds and \<^verbatim>\<open>twalk\<close> walks: a pointer to a
  node is \<open>Null\<close> or a node with a left subtree, a key (the \<^verbatim>\<open>ROW_LIST *\<close> that
  \<^verbatim>\<open>*((ROW_LIST **)nodep)\<close> reads) and a right subtree.\<close>

datatype tree = Null | Node tree ROW_LIST tree

text \<open>\<^verbatim>\<open>VISIT\<close> of \<^verbatim>\<open>search.h\<close>.\<close>

datatype VISIT = preorder | postorder | endorder | leaf

text \<open>\<^verbatim>\<open>TTEXT\<close>: \<^verbatim>\<open>int size\<close> and \<^verbatim>\<open>char ***data\<close>, an array of rows, each row an array
  of strings. A row pointer that was never assigned is the empty row. The values of
  the C \<^verbatim>\<open>int\<close>s are integers here; where the code computes with them, the limits of
  the machine type are written out (see \<open>INT_MAX\<close>, \<open>to_size_t\<close> and \<open>to_int\<close>
  below).\<close>

record TTEXT =
  size_TTEXT :: int
  data_TTEXT :: "string list list"

text \<open>\<^verbatim>\<open>INDEX\<close> (\<^verbatim>\<open>->data\<close> is the root of the tree), \<^verbatim>\<open>COLUMN\<close> (\<^verbatim>\<open>->index\<close> is its
  array of indexes) and \<^verbatim>\<open>INDEX_ID\<close> (\<^verbatim>\<open>->column\<close> and \<^verbatim>\<open>->index_rank\<close>).\<close>

record INDEX =
  data_INDEX :: tree

record COLUMN =
  index :: "INDEX list"

record INDEX_ID =
  column_ID :: int
  index_rank :: int

text \<open>\<^verbatim>\<open>STRING_LIST\<close>: \<^verbatim>\<open>char **list\<close> and \<^verbatim>\<open>int nb\<close>.\<close>

record STRING_LIST =
  list :: "string list"
  nb :: int

text \<open>
  The outcomes other than a normal return. The source has no statement that returns an
  error: \<open>UnknownKey\<close> is the failure the specification names, and it is here so that
  statements about it can be written. \<open>AllocationFailure\<close> is the allocator's failure
  to satisfy a request. \<open>NullDereference\<close> and \<open>OutOfBounds\<close> are the invalid memory
  accesses of the C code and \<open>SignedOverflow\<close> the overflow of an \<^verbatim>\<open>int\<close> addition,
  after which the call does not return to its caller (the behaviour of the C program
  is undefined).
\<close>

datatype error = UnknownKey | AllocationFailure | NullDereference | OutOfBounds | SignedOverflow

text \<open>
  The memory the file works on: the \<^verbatim>\<open>TTEXT\<close> objects allocated so far (the address of an
  object is its position in \<open>heap\<close>), the global \<^verbatim>\<open>TTEXT *vret\<close> (\<open>None\<close> is the null
  pointer) and the global \<^verbatim>\<open>COLUMN **column\<close>.
\<close>

record state =
  heap :: "TTEXT list"
  vret :: "nat option"
  column :: "COLUMN list"

section \<open>Library functions\<close>

text \<open>\<^verbatim>\<open>sprintf(tmp, "%d", n)\<close>: the decimal digits of \<open>n\<close>, after a minus sign when it is
  negative. The buffer of 100 bytes holds every C \<^verbatim>\<open>int\<close>.\<close>

fun decimal :: "nat \<Rightarrow> string" where
  "decimal n =
     (if n < 10 then [''0123456789'' ! n]
      else decimal (n div 10) @ [''0123456789'' ! (n mod 10)])"

declare decimal.simps [simp del]

definition sprintf_d :: "int \<Rightarrow> string" where
  "sprintf_d n = (if n < 0 then CHR ''-'' # decimal (nat (- n)) else decimal (nat n))"

text \<open>
  The machine integers of the C code, for the data model LP64 (64-bit Linux and
  macOS): \<^verbatim>\<open>int\<close> has 32 bits, \<^verbatim>\<open>size_t\<close> and pointers have 64.
  \<open>to_size_t\<close> is the conversion of an integer value to \<^verbatim>\<open>size_t\<close> and the result of
  \<^verbatim>\<open>size_t\<close> arithmetic (modulo \<open>2^64\<close>); \<open>to_int\<close> is the conversion of a value to \<^verbatim>\<open>int\<close>
  when it is passed for an \<^verbatim>\<open>int\<close> parameter (modulo \<open>2^32\<close>, into the range from
  \<open>- 2^31\<close> to \<open>2^31 - 1\<close>, as gcc and clang define it).
\<close>

definition INT_MAX :: int where
  "INT_MAX = 2147483647"

definition to_size_t :: "int \<Rightarrow> int" where
  "to_size_t n = n mod 18446744073709551616"

definition to_int :: "int \<Rightarrow> int" where
  "to_int n =
     (if n mod 4294967296 < 2147483648 then n mod 4294967296
      else n mod 4294967296 - 4294967296)"

definition sizeof_pointer :: int where
  "sizeof_pointer = 8"

text \<open>
  Modelled from the spec: \<^verbatim>\<open>bookmem\<close>, \<^verbatim>\<open>rebookmem\<close> and \<^verbatim>\<open>dupstring\<close> are not in the
  sources at hand; the specification treats them as an opaque allocator whose failure
  is AllocationFailure ("the underlying memory system cannot satisfy a growth request
  while appending rows"). They stand where the commented-out lines of get\_list.c have
  \<^verbatim>\<open>calloc\<close>, \<^verbatim>\<open>realloc\<close> and \<^verbatim>\<open>strdup\<close>, and are modelled as these:
  \<^verbatim>\<open>bookmem(1, sizeof(TTEXT), ...)\<close> is a new zeroed \<^verbatim>\<open>TTEXT\<close> at a fresh address,
  \<^verbatim>\<open>bookmem(n, sizeof(char **), ...)\<close> an array of \<open>n\<close> unassigned rows, and
  \<^verbatim>\<open>dupstring\<close> the string itself. \<^verbatim>\<open>rebookmem(data, size, ...)\<close>, whose parameter
  \<^verbatim>\<open>size\<close> is declared \<^verbatim>\<open>int\<close> on line 15, is the array cut or extended to the rows
  that \<^verbatim>\<open>size\<close> bytes hold; a request of a negative number of bytes cannot be satisfied.
\<close>

definition bookmem_TTEXT :: "state \<Rightarrow> nat \<times> state" where
  "bookmem_TTEXT s =
     (length (heap s), s\<lparr>heap := heap s @ [\<lparr>size_TTEXT = 0, data_TTEXT = []\<rparr>]\<rparr>)"

definition bookmem_rows :: "int \<Rightarrow> string list list" where
  "bookmem_rows n = replicate (nat n) []"

definition rebookmem_rows :: "string list list \<Rightarrow> int \<Rightarrow> error + string list list" where
  "rebookmem_rows d bytes =
     (if bytes < 0 then Inl AllocationFailure
      else Inr (take (nat (bytes div sizeof_pointer)) d
                @ replicate (nat (bytes div sizeof_pointer) - length d) []))"

text \<open>Reading \<^verbatim>\<open>a[i]\<close> in an array of known extent: outside of it the access is
  invalid.\<close>

definition deref_at :: "'a list \<Rightarrow> int \<Rightarrow> error + 'a" where
  "deref_at xs i =
     (if 0 \<le> i \<and> i < int (length xs) then Inr (xs ! nat i) else Inl OutOfBounds)"

text \<open>Writing \<^verbatim>\<open>a[i] = v\<close> in an array of known extent, likewise.\<close>

definition store_at :: "'a list \<Rightarrow> int \<Rightarrow> 'a \<Rightarrow> error + 'a list" where
  "store_at xs i v =
     (if 0 \<le> i \<and> i < int (length xs) then Inr (xs[nat i := v]) else Inl OutOfBounds)"

text \<open>
  \<^verbatim>\<open>twalk(root, action)\<close> of \<^verbatim>\<open>search.h\<close>: nothing for an empty tree; a node without
  children is visited once as \<open>leaf\<close>; any other node three times, as \<open>preorder\<close> before
  its left subtree, as \<open>postorder\<close> between its subtrees and as \<open>endorder\<close> after its right
  subtree. The action works on the memory and may fail.
\<close>

fun trecurse ::
  "(ROW_LIST \<Rightarrow> VISIT \<Rightarrow> int \<Rightarrow> state \<Rightarrow> error + state) \<Rightarrow> tree \<Rightarrow> int \<Rightarrow> state \<Rightarrow> error + state"
where
  "trecurse action Null level s = Inr s"
| "trecurse action (Node l k r) level s =
     (if l = Null \<and> r = Null then action k leaf level s
      else
        (case action k preorder level s of
           Inl e \<Rightarrow> Inl e
         | Inr s1 \<Rightarrow>
            (case (if l \<noteq> Null then trecurse action l (level + 1) s1 else Inr s1) of
               Inl e \<Rightarrow> Inl e
             | Inr s2 \<Rightarrow>
                (case action k postorder level s2 of
                   Inl e \<Rightarrow> Inl e
                 | Inr s3 \<Rightarrow>
                    (case (if r \<noteq> Null then trecurse action r (level + 1) s3 else Inr s3) of
                       Inl e \<Rightarrow> Inl e
                     | Inr s4 \<Rightarrow> action k endorder level s4)))))"

definition twalk ::
  "tree \<Rightarrow> (ROW_LIST \<Rightarrow> VISIT \<Rightarrow> int \<Rightarrow> state \<Rightarrow> error + state) \<Rightarrow> state \<Rightarrow> error + state"
where
  "twalk root action s = (if root = Null then Inr s else trecurse action root 0 s)"

section \<open>get\_list.c\<close>

text \<open>
  \<^verbatim>\<open>action_list\<close> (lines 20 to 44). In the cases \<open>postorder\<close> and \<open>leaf\<close> it
  computes \<^verbatim>\<open>(vret->size + 1) * sizeof(char **)\<close>, an \<^verbatim>\<open>int\<close> addition followed by a
  \<^verbatim>\<open>size_t\<close> multiplication, passes the product for the \<^verbatim>\<open>int\<close> parameter of
  \<^verbatim>\<open>rebookmem\<close>, stores the row of the two strings \<^verbatim>\<open>"%d" % nb_row\<close> and \<^verbatim>\<open>token\<close> at
  position \<^verbatim>\<open>vret->size\<close> of the array it got, and increments \<^verbatim>\<open>vret->size\<close>; in the
  cases \<open>preorder\<close> and \<open>endorder\<close> it does nothing.
\<close>

definition action_list :: "ROW_LIST \<Rightarrow> VISIT \<Rightarrow> int \<Rightarrow> state \<Rightarrow> error + state" where
  "action_list datap which depth s =
     (let visit =
        (case vret s of
           None \<Rightarrow> Inl NullDereference
         | Some p \<Rightarrow>
            (if p < length (heap s) then
               (let t = heap s ! p
                in if size_TTEXT t = INT_MAX then Inl SignedOverflow
                   else
                     (case rebookmem_rows (data_TTEXT t)
                             (to_int (to_size_t (to_size_t (size_TTEXT t + 1) * sizeof_pointer))) of
                        Inl e \<Rightarrow> Inl e
                      | Inr d \<Rightarrow>
                         (let tmp = sprintf_d (nb_row datap)
                          in case store_at d (size_TTEXT t) [tmp, token datap] of
                               Inl e \<Rightarrow> Inl e
                             | Inr d' \<Rightarrow>
                                Inr (s\<lparr>heap := (heap s)
                                      [p := t\<lparr>data_TTEXT := d',
                                              size_TTEXT := size_TTEXT t + 1\<rparr>]\<rparr>))))
             else Inl OutOfBounds))
      in case which of
           preorder \<Rightarrow> Inr s
         | postorder \<Rightarrow> visit
         | leaf \<Rightarrow> visit
         | endorder \<Rightarrow> Inr s)"

text \<open>The expression \<^verbatim>\<open>column[index_id->column]->index[index_id->index_rank]->data\<close> of
  lines 62, 83 and 138: \<^verbatim>\<open>index_id\<close> is dereferenced without a test.\<close>

definition index_data :: "COLUMN list \<Rightarrow> INDEX_ID option \<Rightarrow> error + tree" where
  "index_data cols index_id =
     (case index_id of
        None \<Rightarrow> Inl NullDereference
      | Some i \<Rightarrow>
         (case deref_at cols (column_ID i) of
            Inl e \<Rightarrow> Inl e
          | Inr c \<Rightarrow>
             (case deref_at (index c) (index_rank i) of
                Inl e \<Rightarrow> Inl e
              | Inr ix \<Rightarrow> Inr (data_INDEX ix))))"

text \<open>
  \<^verbatim>\<open>index_gtf\<close> is declared \<^verbatim>\<open>extern\<close> and is a parameter of the entry points: given the
  dataset, the key and the global \<^verbatim>\<open>column\<close>, it returns a pointer to an \<^verbatim>\<open>INDEX_ID\<close> (or
  the null pointer) and the global \<^verbatim>\<open>column\<close> as it leaves it. The dataset is a value of
  any type \<open>'g\<close>: the file only hands it on.
\<close>

type_synonym 'g index_gtf_fun =
  "'g \<Rightarrow> string \<Rightarrow> COLUMN list \<Rightarrow> INDEX_ID option \<times> COLUMN list"

text \<open>\<^verbatim>\<open>get_feature_list\<close> (lines 47 to 65). The result is the pointer \<^verbatim>\<open>vret\<close> and the
  memory after the call.\<close>

definition get_feature_list ::
  "'g index_gtf_fun \<Rightarrow> 'g \<Rightarrow> state \<Rightarrow> error + (nat option \<times> state)"
where
  "get_feature_list index_gtf gtf_data s =
     (let (p, s1) = bookmem_TTEXT s;
          s2 = s1\<lparr>vret := Some p\<rparr>;
          (index_id, cols) = index_gtf gtf_data ''feature'' (column s2);
          s3 = s2\<lparr>column := cols\<rparr>
      in case index_data (column s3) index_id of
           Inl e \<Rightarrow> Inl e
         | Inr root \<Rightarrow>
            (case twalk root action_list s3 of
               Inl e \<Rightarrow> Inl e
             | Inr s4 \<Rightarrow> Inr (vret s4, s4)))"

text \<open>\<^verbatim>\<open>get_seqid_list\<close> (lines 68 to 86).\<close>

definition get_seqid_list ::
  "'g index_gtf_fun \<Rightarrow> 'g \<Rightarrow> state \<Rightarrow> error + (nat option \<times> state)"
where
  "get_seqid_list index_gtf gtf_data s =
     (let (p, s1) = bookmem_TTEXT s;
          s2 = s1\<lparr>vret := Some p\<rparr>;
          (index_id, cols) = index_gtf gtf_data ''seqid'' (column s2);
          s3 = s2\<lparr>column := cols\<rparr>
      in case index_data (column s3) index_id of
           Inl e \<Rightarrow> Inl e
         | Inr root \<Rightarrow>
            (case twalk root action_list s3 of
               Inl e \<Rightarrow> Inl e
             | Inr s4 \<Rightarrow> Inr (vret s4, s4)))"

text \<open>\<^verbatim>\<open>get_attribute_values_list\<close> (lines 123 to 141).\<close>

definition get_attribute_values_list ::
  "'g index_gtf_fun \<Rightarrow> 'g \<Rightarrow> string \<Rightarrow> state \<Rightarrow> error + (nat option \<times> state)"
where
  "get_attribute_values_list index_gtf gtf_data attribute s =
     (let (p, s1) = bookmem_TTEXT s;
          s2 = s1\<lparr>vret := Some p\<rparr>;
          (index_id, cols) = index_gtf gtf_data attribute (column s2);
          s3 = s2\<lparr>column := cols\<rparr>
      in case index_data (column s3) index_id of
           Inl e \<Rightarrow> Inl e
         | Inr root \<Rightarrow>
            (case twalk root action_list s3 of
               Inl e \<Rightarrow> Inl e
             | Inr s4 \<Rightarrow> Inr (vret s4, s4)))"

text \<open>
  The loop of \<^verbatim>\<open>get_attribute_list\<close> (lines 108 to 113), from \<open>i\<close> on: row \<open>i\<close> of
  \<^verbatim>\<open>vret->data\<close> becomes the one string \<^verbatim>\<open>sl->list[i]\<close>.
\<close>

function fill_list :: "STRING_LIST \<Rightarrow> int \<Rightarrow> state \<Rightarrow> error + state" where
  "fill_list sl i s =
     (if i < nb sl then
        (case vret s of
           None \<Rightarrow> Inl NullDereference
         | Some p \<Rightarrow>
            (if p < length (heap s) then
               (case deref_at (data_TTEXT (heap s ! p)) i of
                  Inl e \<Rightarrow> Inl e
                | Inr unassigned \<Rightarrow>
                   (case deref_at (list sl) i of
                      Inl e \<Rightarrow> Inl e
                    | Inr name \<Rightarrow>
                       fill_list sl (i + 1)
                         (s\<lparr>heap := (heap s)
                            [p := (heap s ! p)
                               \<lparr>data_TTEXT := (data_TTEXT (heap s ! p))[nat i := [name]]\<rparr>]\<rparr>)))
             else Inl OutOfBounds))
      else Inr s)"
  by pat_completeness auto
termination
  by (relation "measure (\<lambda>(sl, i, s). nat (nb sl - i))") auto

declare fill_list.simps [simp del]

text \<open>
  \<^verbatim>\<open>get_attribute_list\<close> (lines 89 to 120). \<^verbatim>\<open>get_all_attributes\<close> is declared \<^verbatim>\<open>extern\<close>
  and is a parameter: it returns a pointer to a \<^verbatim>\<open>STRING_LIST\<close> (or the null pointer),
  which line 103 dereferences without a test.
\<close>

definition get_attribute_list ::
  "('g \<Rightarrow> STRING_LIST option) \<Rightarrow> 'g \<Rightarrow> state \<Rightarrow> error + (nat option \<times> state)"
where
  "get_attribute_list get_all_attributes gtf_data s =
     (let sl = get_all_attributes gtf_data;
          (p, s1) = bookmem_TTEXT s;
          s2 = s1\<lparr>vret := Some p\<rparr>
      in case sl of
           None \<Rightarrow> Inl NullDereference
         | Some l \<Rightarrow>
            (let s3 = s2\<lparr>heap := (heap s2)[p := (heap s2 ! p)\<lparr>data_TTEXT := bookmem_rows (nb l)\<rparr>]\<rparr>
             in case fill_list l 0 s3 of
                  Inl e \<Rightarrow> Inl e
                | Inr s4 \<Rightarrow>
                   (case vret s4 of
                      None \<Rightarrow> Inl NullDereference
                    | Some q \<Rightarrow>
                       (if q < length (heap s4) then
                          (let s5 = s4\<lparr>heap := (heap s4)[q := (heap s4 ! q)\<lparr>size_TTEXT := nb l\<rparr>]\<rparr>
                           in Inr (vret s5, s5))
                        else Inl OutOfBounds))))"

section \<open>What the traversal computes\<close>

text \<open>The entries of a tree from left to right, and the row that \<^verbatim>\<open>action_list\<close> makes
  of an entry.\<close>

fun inorder :: "tree \<Rightarrow> ROW_LIST list" where
  "inorder Null = []"
| "inorder (Node l k r) = inorder l @ k # inorder r"

definition row_of :: "ROW_LIST \<Rightarrow> string list" where
  "row_of e = [sprintf_d (nb_row e), token e]"

text \<open>The table in memory whose size field counts its rows.\<close>

definition counted :: "TTEXT \<Rightarrow> bool" where
  "counted t = (size_TTEXT t = int (length (data_TTEXT t)))"

text \<open>The memory after rows were appended to the table at address \<open>p\<close>.\<close>

definition appended :: "state \<Rightarrow> nat \<Rightarrow> string list list \<Rightarrow> state" where
  "appended s p rows =
     s\<lparr>heap := (heap s)
        [p := (heap s ! p)
           \<lparr>data_TTEXT := data_TTEXT (heap s ! p) @ rows,
            size_TTEXT := size_TTEXT (heap s ! p) + int (length rows)\<rparr>]\<rparr>"

text \<open>The memory after an entry point listed the tree \<open>t\<close>, with \<open>cols\<close> the global
  \<^verbatim>\<open>column\<close> as \<^verbatim>\<open>index_gtf\<close> left it: one new table, at the first free address.\<close>

definition listed :: "state \<Rightarrow> COLUMN list \<Rightarrow> tree \<Rightarrow> state" where
  "listed s cols t =
     \<lparr>heap = heap s @
        [\<lparr>size_TTEXT = int (length (inorder t)), data_TTEXT = map row_of (inorder t)\<rparr>],
      vret = Some (length (heap s)),
      column = cols\<rparr>"

text \<open>The entry points that list the index of \<open>key\<close>: \<^verbatim>\<open>get_attribute_values_list\<close>
  with that key, \<^verbatim>\<open>get_feature_list\<close> when the key is \<^verbatim>\<open>"feature"\<close> and
  \<^verbatim>\<open>get_seqid_list\<close> when it is \<^verbatim>\<open>"seqid"\<close>.\<close>

definition index_entry_point ::
  "'g index_gtf_fun \<Rightarrow> 'g \<Rightarrow> string \<Rightarrow> (state \<Rightarrow> error + (nat option \<times> state)) \<Rightarrow> bool"
where
  "index_entry_point index_gtf g key run =
     (run = get_attribute_values_list index_gtf g key
      \<or> (key = ''feature'' \<and> run = get_feature_list index_gtf g)
      \<or> (key = ''seqid'' \<and> run = get_seqid_list index_gtf g))"

text \<open>
  The invariant of a tree built by \<^verbatim>\<open>tsearch\<close> with a comparison function whose
  "is less" relation on the tokens is \<open>lt\<close>: every entry on the left of a node is
  less than the node's, every entry on the right is greater.
\<close>

fun bst :: "(string \<Rightarrow> string \<Rightarrow> bool) \<Rightarrow> tree \<Rightarrow> bool" where
  "bst lt Null = True"
| "bst lt (Node l k r) =
     (bst lt l \<and> bst lt r
      \<and> list_all (\<lambda>e. lt (token e) (token k)) (inorder l)
      \<and> list_all (\<lambda>e. lt (token k) (token e)) (inorder r))"

text \<open>The rows that the loop of \<^verbatim>\<open>get_attribute_list\<close> leaves in an array \<open>d\<close> when it
  starts at \<open>i\<close>: position \<open>j\<close> from \<open>i\<close> up to \<^verbatim>\<open>sl->nb\<close> holds the one string
  \<^verbatim>\<open>sl->list[j]\<close>, every other position is as it was.\<close>

definition filled :: "STRING_LIST \<Rightarrow> int \<Rightarrow> string list list \<Rightarrow> string list list" where
  "filled sl i d =
     map (\<lambda>j. if i \<le> int j \<and> int j < nb sl then [list sl ! j] else d ! j) [0..<length d]"

definition with_data :: "state \<Rightarrow> nat \<Rightarrow> string list list \<Rightarrow> state" where
  "with_data s p d = s\<lparr>heap := (heap s)[p := (heap s ! p)\<lparr>data_TTEXT := d\<rparr>]\<rparr>"

section \<open>The index collaborator, from the specification\<close>

text \<open>
  Modelled from the spec: the dataset type \<^verbatim>\<open>GTF_DATA\<close> is not in the sources at hand. A
  dataset is the list of its column and attribute names, each with the values of the
  rows that bear it, in row order.
\<close>

type_synonym GTF_DATA = "(string \<times> string list) list"

text \<open>
  Modelled from the spec: the insertion into an index, which is part of \<^verbatim>\<open>index_gtf\<close> and
  not in the sources at hand. The specification describes the index as "a sorted
  structure mapping each distinct value occurring in that column to the number of rows
  bearing it", in "the index's native sort order over distinct\_value (lexicographic on
  the original representation)". The order on strings is the lexicographic order on
  bytes.
\<close>

fun index_insert :: "string \<Rightarrow> tree \<Rightarrow> tree" where
  "index_insert v Null = Node Null \<lparr>token = v, nb_row = 1\<rparr> Null"
| "index_insert v (Node l k r) =
     (if v < token k then Node (index_insert v l) k r
      else if token k < v then Node l k (index_insert v r)
      else Node l (k\<lparr>nb_row := nb_row k + 1\<rparr>) r)"

text \<open>Modelled from the spec: the index of a column, which \<^verbatim>\<open>index_gtf\<close> builds from the
  values of the rows, one after the other.\<close>

definition build_index :: "string list \<Rightarrow> tree" where
  "build_index vals = foldl (\<lambda>t v. index_insert v t) Null vals"

text \<open>Modelled from the spec: the handle \<^verbatim>\<open>index_gtf\<close> answers with, "IndexHandle |
  Error(UnknownKey)": the number of the column that bears the name \<open>key\<close>, or the null
  pointer when the dataset has no such name.\<close>

fun lookup_column :: "GTF_DATA \<Rightarrow> string \<Rightarrow> int \<Rightarrow> INDEX_ID option" where
  "lookup_column [] key c = None"
| "lookup_column ((name, vals) # rest) key c =
     (if name = key then Some \<lparr>column_ID = c, index_rank = 0\<rparr>
      else lookup_column rest key (c + 1))"

text \<open>Modelled from the spec: \<^verbatim>\<open>index_gtf\<close>, which is not in the sources at hand. It
  "builds (or reuses)" the indexes: after it the global \<^verbatim>\<open>column\<close> holds one column per
  name of the dataset, each with the one index of its values, whatever it held
  before.\<close>

definition index_gtf_spec :: "GTF_DATA index_gtf_fun" where
  "index_gtf_spec gtf_data key cols =
     (lookup_column gtf_data key 0,
      map (\<lambda>(name, vals). \<lparr>index = [\<lparr>data_INDEX = build_index vals\<rparr>]\<rparr>) gtf_data)"

section \<open>Concrete inputs\<close>

text \<open>The memory before any call, the dataset of the specification's example (with a
  second column), a dataset without rows, a collaborator that fails for every key, and
  an enumerator of attribute names.\<close>

definition start :: state where
  "start = \<lparr>heap = [], vret = None, column = []\<rparr>"

definition example_gtf :: GTF_DATA where
  "example_gtf =
     [(''seqid'', [''chr2'', ''chr1'', ''chr1'', ''chr2'']),
      (''feature'', [''exon'', ''exon'', ''gene'', ''exon''])]"

definition no_rows_gtf :: GTF_DATA where
  "no_rows_gtf = [(''seqid'', []), (''feature'', [])]"

definition failing_index_gtf :: "GTF_DATA index_gtf_fun" where
  "failing_index_gtf gtf_data key cols = (None, cols)"

definition example_attributes :: "GTF_DATA \<Rightarrow> STRING_LIST option" where
  "example_attributes gtf_data =
     Some \<lparr>list = [''gene_id'', ''transcript_id'', ''exon_number''], nb = 3\<rparr>"

text \<open>
  A collaborator that keeps the indexes of all names of the dataset in the one column
  number 1, the index of the \<open>n\<close>-th name at rank \<open>n\<close>, after a column without index.
\<close>

definition ranked_index_gtf :: "GTF_DATA index_gtf_fun" where
  "ranked_index_gtf gtf_data key cols =
     ((case lookup_column gtf_data key 0 of
         None \<Rightarrow> None
       | Some i \<Rightarrow> Some \<lparr>column_ID = 1, index_rank = column_ID i\<rparr>),
      [\<lparr>index = []\<rparr>,
       \<lparr>index = map (\<lambda>(name, vals). \<lparr>data_INDEX = build_index vals\<rparr>) gtf_data\<rparr>])"

text \<open>
  A large index: the complete search tree of depth \<open>n\<close> whose tokens extend \<open>p\<close> by
  the digits 0, 1 and 2 (the token of a node ends in 1, the tokens on its left continue
  with 0, those on its right with 2), each borne by one row. With depth 29 it has
  \<open>2^29 - 1\<close> entries, of at most 29 characters. And a collaborator whose index of every
  key is that tree.
\<close>

fun full :: "nat \<Rightarrow> string \<Rightarrow> tree" where
  "full 0 p = Null"
| "full (Suc n) p =
     Node (full n (p @ ''0'')) \<lparr>token = p @ ''1'', nb_row = 1\<rparr> (full n (p @ ''2''))"

definition large_index_gtf :: "unit index_gtf_fun" where
  "large_index_gtf gtf_data key cols =
     (Some \<lparr>column_ID = 0, index_rank = 0\<rparr>, [\<lparr>index = [\<lparr>data_INDEX = full 29 []\<rparr>]\<rparr>])"

section \<open>Two calls in one process\<close>

text \<open>
  The rows of the table that a call returned, read in the memory \<open>s\<close>: none when the
  call did not return a pointer to a table.
\<close>

definition rows_at :: "nat option \<Rightarrow> state \<Rightarrow> string list list option" where
  "rows_at r s =
     (case r of
        None \<Rightarrow> None
      | Some p \<Rightarrow> if p < length (heap s) then Some (data_TTEXT (heap s ! p)) else None)"

definition rows_returned :: "error + (nat option \<times> state) \<Rightarrow> string list list option" where
  "rows_returned outcome = (case outcome of Inl e \<Rightarrow> None | Inr (r, s) \<Rightarrow> rows_at r s)"

text \<open>
  One activation of \<^verbatim>\<open>get_attribute_values_list\<close> (\<^verbatim>\<open>get_feature_list\<close> and
  \<^verbatim>\<open>get_seqid_list\<close> are the same statements with a constant key): its two arguments,
  the statement it is at, its local variable \<^verbatim>\<open>index_id\<close> and the pointer it returned.
  The statements are those of lines 128, 133, 138 and 140; the global variables
  \<^verbatim>\<open>vret\<close> and \<^verbatim>\<open>column\<close> are in the memory that all activations share.
\<close>

datatype location = line_128 | line_133 | line_138 | line_140 | after_return

record 'g activation =
  gtf_data_arg :: 'g
  attribute_arg :: string
  pc :: location
  index_id :: "INDEX_ID option"
  returned_value :: "nat option"

definition call :: "'g \<Rightarrow> string \<Rightarrow> 'g activation" where
  "call g key =
     \<lparr>gtf_data_arg = g, attribute_arg = key, pc = line_128, index_id = None,
      returned_value = None\<rparr>"

definition statement ::
  "'g index_gtf_fun \<Rightarrow> 'g activation \<Rightarrow> state \<Rightarrow> error + ('g activation \<times> state)"
where
  "statement index_gtf a s =
     (case pc a of
        line_128 \<Rightarrow>
          (let (p, s1) = bookmem_TTEXT s
           in Inr (a\<lparr>pc := line_133\<rparr>, s1\<lparr>vret := Some p\<rparr>))
      | line_133 \<Rightarrow>
          (let (h, cols) = index_gtf (gtf_data_arg a) (attribute_arg a) (column s)
           in Inr (a\<lparr>pc := line_138, index_id := h\<rparr>, s\<lparr>column := cols\<rparr>))
      | line_138 \<Rightarrow>
          (case index_data (column s) (index_id a) of
             Inl e \<Rightarrow> Inl e
           | Inr root \<Rightarrow>
              (case twalk root action_list s of
                 Inl e \<Rightarrow> Inl e
               | Inr s4 \<Rightarrow> Inr (a\<lparr>pc := line_140\<rparr>, s4)))
      | line_140 \<Rightarrow> Inr (a\<lparr>pc := after_return, returned_value := vret s\<rparr>, s)
      | after_return \<Rightarrow> Inr (a, s))"

text \<open>
  Two activations in one process, run in the order a schedule gives: each element of
  the schedule names the activation that executes its next statement. Statements are
  not split: the schedules below only separate the allocation of line 128 from the
  rest of a call.
\<close>

datatype turn = First | Second

fun run_schedule ::
  "'g index_gtf_fun \<Rightarrow> turn list \<Rightarrow> 'g activation \<times> 'g activation \<times> state
     \<Rightarrow> error + ('g activation \<times> 'g activation \<times> state)"
where
  "run_schedule index_gtf [] c = Inr c"
| "run_schedule index_gtf (First # rest) (a, b, s) =
     (case statement index_gtf a s of
        Inl e \<Rightarrow> Inl e
      | Inr (a', s') \<Rightarrow> run_schedule index_gtf rest (a', b, s'))"
| "run_schedule index_gtf (Second # rest) (a, b, s) =
     (case statement index_gtf b s of
        Inl e \<Rightarrow> Inl e
      | Inr (b', s') \<Rightarrow> run_schedule index_gtf rest (a, b', s'))"

text \<open>What the two callers hold at the end: for each call the rows of the table it
  returned, read in the final memory.\<close>

definition both_rows ::
  "error + ('g activation \<times> 'g activation \<times> state)
     \<Rightarrow> error + (string list list option \<times> string list list option)"
where
  "both_rows outcome =
     (case outcome of
        Inl e \<Rightarrow> Inl e
      | Inr (a, b, s) \<Rightarrow> Inr (rows_at (returned_value a) s, rows_at (returned_value b) s))"

section \<open>Properties\<close>

subsection \<open>The traversal with action\_list\<close>

text \<open>The size that line 31 passes to \<^verbatim>\<open>rebookmem\<close> for \<open>n\<close> rows: the number of their
  bytes below \<open>2^28\<close> rows, and a negative number for \<open>2^28\<close> rows.\<close>

lemma to_int_bytes:
  "0 \<le> n \<Longrightarrow> n < 268435456 \<Longrightarrow>
   to_int (to_size_t (to_size_t n * sizeof_pointer)) = 8 * n"
  by (simp add: to_int_def to_size_t_def sizeof_pointer_def)

lemma to_int_bytes_limit:
  "to_int (to_size_t (to_size_t 268435456 * sizeof_pointer)) = - 2147483648"
  by (simp add: to_int_def to_size_t_def sizeof_pointer_def)

lemma rebookmem_rows_grow:
  "int (length d) + 1 < 268435456 \<Longrightarrow>
   rebookmem_rows d (to_int (to_size_t (to_size_t (int (length d) + 1) * sizeof_pointer)))
     = Inr (d @ [[]])"
proof -
  assume "int (length d) + 1 < 268435456"
  then have eq: "to_int (to_size_t (to_size_t (int (length d) + 1) * sizeof_pointer))
      = 8 * (int (length d) + 1)"
    by (intro to_int_bytes) simp_all
  show ?thesis
    unfolding rebookmem_rows_def eq by (simp add: sizeof_pointer_def nat_add_distrib)
qed

lemma rebookmem_rows_limit:
  "int (length d) + 1 = 268435456 \<Longrightarrow>
   rebookmem_rows d (to_int (to_size_t (to_size_t (int (length d) + 1) * sizeof_pointer)))
     = Inl AllocationFailure"
proof -
  assume "int (length d) + 1 = 268435456"
  then have eq: "to_int (to_size_t (to_size_t (int (length d) + 1) * sizeof_pointer))
      = - 2147483648"
    by (simp only: to_int_bytes_limit)
  show ?thesis
    unfolding rebookmem_rows_def eq by simp
qed

lemma store_at_last: "store_at (d @ [x]) (int (length d)) row = Inr (d @ [row])"
  by (simp add: store_at_def)

lemma appended_Nil:
  "p < length (heap s) \<Longrightarrow> appended s p [] = s"
  by (simp add: appended_def)

lemma appended_fields [simp]:
  "vret (appended s p rows) = vret s"
  "column (appended s p rows) = column s"
  "length (heap (appended s p rows)) = length (heap s)"
  by (simp_all add: appended_def)

lemma appended_at:
  "p < length (heap s) \<Longrightarrow>
   heap (appended s p rows) ! p =
     \<lparr>size_TTEXT = size_TTEXT (heap s ! p) + int (length rows),
      data_TTEXT = data_TTEXT (heap s ! p) @ rows\<rparr>"
  by (simp add: appended_def)

lemma appended_counted:
  "p < length (heap s) \<Longrightarrow> counted (heap s ! p) \<Longrightarrow> counted (heap (appended s p rows) ! p)"
  by (simp add: appended_at counted_def)

lemma appended_appended:
  "p < length (heap s) \<Longrightarrow> appended (appended s p xs) p ys = appended s p (xs @ ys)"
  by (simp add: appended_def add.assoc)

lemma action_list_visit:
  assumes "vret s = Some p" and "p < length (heap s)" and "counted (heap s ! p)"
    and "length (data_TTEXT (heap s ! p)) < 268435456"
    and "which = postorder \<or> which = leaf"
  shows "action_list e which depth s =
     (if length (data_TTEXT (heap s ! p)) + 1 < 268435456
      then Inr (appended s p [row_of e]) else Inl AllocationFailure)"
proof -
  let ?d = "data_TTEXT (heap s ! p)"
  have sz: "size_TTEXT (heap s ! p) = int (length ?d)"
    using assms(3) by (simp add: counted_def)
  have nomax: "size_TTEXT (heap s ! p) \<noteq> INT_MAX"
    using assms(4) sz by (simp add: INT_MAX_def)
  show ?thesis
  proof (cases "length ?d + 1 < 268435456")
    case True
    then have "int (length ?d) + 1 < 268435456" by simp
    from rebookmem_rows_grow [OF this] show ?thesis
      using True assms(1,2,5) sz nomax
      by (auto simp: action_list_def Let_def store_at_last appended_def row_of_def)
  next
    case False
    with assms(4) have "int (length ?d) + 1 = 268435456" by simp
    from rebookmem_rows_limit [OF this] show ?thesis
      using False assms(1,2,5) sz nomax
      by (auto simp: action_list_def Let_def)
  qed
qed

text \<open>With a negative \<^verbatim>\<open>size\<close> the store of line 33 is outside of the array.\<close>

lemma action_list_negative_size:
  "action_list \<lparr>token = ''exon'', nb_row = 3\<rparr> leaf 0
     \<lparr>heap = [\<lparr>size_TTEXT = - 1, data_TTEXT = []\<rparr>], vret = Some 0, column = []\<rparr>
   = Inl OutOfBounds"
  by (simp add: action_list_def INT_MAX_def to_int_def to_size_t_def sizeof_pointer_def
      rebookmem_rows_def store_at_def)

lemma action_list_skip:
  "which = preorder \<or> which = endorder \<Longrightarrow> action_list e which depth s = Inr s"
  by (auto simp: action_list_def Let_def)

lemma appended_length:
  "p < length (heap s) \<Longrightarrow>
   length (data_TTEXT (heap (appended s p rows) ! p))
     = length (data_TTEXT (heap s ! p)) + length rows"
  by (simp add: appended_at)

text \<open>The walk appends the rows of all entries while the table stays below \<open>2^28\<close>
  rows, and ends in the allocator's failure at the entry that would be row \<open>2^28\<close>.\<close>

lemma trecurse_action_list:
  "vret s = Some p \<Longrightarrow> p < length (heap s) \<Longrightarrow> counted (heap s ! p) \<Longrightarrow>
   length (data_TTEXT (heap s ! p)) < 268435456 \<Longrightarrow>
   trecurse action_list t level s =
     (if length (data_TTEXT (heap s ! p)) + length (inorder t) < 268435456
      then Inr (appended s p (map row_of (inorder t))) else Inl AllocationFailure)"
proof (induction t arbitrary: s level)
  case Null
  then show ?case by (simp add: appended_Nil)
next
  case (Node l k r)
  let ?n = "length (data_TTEXT (heap s ! p))"
  let ?s2 = "appended s p (map row_of (inorder l))"
  let ?s3 = "appended ?s2 p [row_of k]"
  have pre: "action_list k preorder level s = Inr s"
    by (simp add: action_list_skip)
  have left: "(if l \<noteq> Null then trecurse action_list l (level + 1) s else Inr s)
      = (if ?n + length (inorder l) < 268435456 then Inr ?s2 else Inl AllocationFailure)"
    using Node.IH(1) [OF Node.prems, of "level + 1"] Node.prems(2,4)
    by (cases "l = Null") (simp_all add: appended_Nil)
  show ?case
  proof (cases "l = Null \<and> r = Null")
    case True
    then show ?thesis
      using action_list_visit [OF Node.prems, of leaf k level] by simp
  next
    case nonleaf: False
    show ?thesis
    proof (cases "?n + length (inorder l) < 268435456")
      case False
      then have rhs: "\<not> ?n + length (inorder (Node l k r)) < 268435456" by simp
      show ?thesis
        by (simp only: trecurse.simps nonleaf if_False pre left False rhs sum.case)
    next
      case fits_l: True
      have c2: "vret ?s2 = Some p" "p < length (heap ?s2)" "counted (heap ?s2 ! p)"
        "length (data_TTEXT (heap ?s2 ! p)) < 268435456"
        using Node.prems fits_l by (simp_all add: appended_counted appended_length)
      have mid: "action_list k postorder level ?s2
          = (if ?n + length (inorder l) + 1 < 268435456 then Inr ?s3 else Inl AllocationFailure)"
        using action_list_visit [OF c2, of postorder k level] Node.prems(2)
        by (simp add: appended_length)
      show ?thesis
      proof (cases "?n + length (inorder l) + 1 < 268435456")
        case False
        then have rhs: "\<not> ?n + length (inorder (Node l k r)) < 268435456" by simp
        show ?thesis
          by (simp only: trecurse.simps nonleaf if_False if_True pre left fits_l mid False rhs
              sum.case)
      next
        case fits_k: True
        have c3: "vret ?s3 = Some p" "p < length (heap ?s3)" "counted (heap ?s3 ! p)"
          "length (data_TTEXT (heap ?s3 ! p)) < 268435456"
          using c2 fits_k Node.prems(2) by (simp_all add: appended_counted appended_length)
        have final: "appended ?s3 p (map row_of (inorder r))
            = appended s p (map row_of (inorder (Node l k r)))"
          using Node.prems(2) by (simp add: appended_appended)
        have len3: "length (data_TTEXT (heap ?s3 ! p)) = ?n + length (inorder l) + 1"
          using Node.prems(2) by (simp add: appended_length)
        have right: "(if r \<noteq> Null then trecurse action_list r (level + 1) ?s3 else Inr ?s3)
            = (if ?n + length (inorder (Node l k r)) < 268435456
               then Inr (appended s p (map row_of (inorder (Node l k r))))
               else Inl AllocationFailure)"
        proof (cases "r = Null")
          case True
          then show ?thesis
            using fits_k final c3(2) by (simp add: appended_Nil)
        next
          case False
          have "trecurse action_list r (level + 1) ?s3
              = (if ?n + length (inorder l) + 1 + length (inorder r) < 268435456
                 then Inr (appended ?s3 p (map row_of (inorder r))) else Inl AllocationFailure)"
            using Node.IH(2) [OF c3, of "level + 1"] by (simp only: len3)
          then show ?thesis
            using False by (simp add: final)
        qed
        have post: "action_list k endorder level s' = Inr s'" for s'
          by (simp add: action_list_skip)
        show ?thesis
        proof (cases "?n + length (inorder (Node l k r)) < 268435456")
          case True
          show ?thesis
            by (simp only: trecurse.simps nonleaf if_False if_True pre left fits_l mid fits_k
                right True post sum.case)
        next
          case False
          show ?thesis
            by (simp only: trecurse.simps nonleaf if_False if_True pre left fits_l mid fits_k
                right False sum.case)
        qed
      qed
    qed
  qed
qed

lemma twalk_action_list:
  "vret s = Some p \<Longrightarrow> p < length (heap s) \<Longrightarrow> counted (heap s ! p) \<Longrightarrow>
   length (data_TTEXT (heap s ! p)) < 268435456 \<Longrightarrow>
   twalk t action_list s =
     (if length (data_TTEXT (heap s ! p)) + length (inorder t) < 268435456
      then Inr (appended s p (map row_of (inorder t))) else Inl AllocationFailure)"
  by (cases t) (simp_all add: twalk_def appended_Nil trecurse_action_list del: trecurse.simps)

lemma walk_fresh_table:
  "twalk t action_list
     \<lparr>heap = hp @ [\<lparr>size_TTEXT = 0, data_TTEXT = []\<rparr>], vret = Some (length hp), column = cols\<rparr>
   = (if length (inorder t) < 268435456
      then Inr \<lparr>heap = hp @
            [\<lparr>size_TTEXT = int (length (inorder t)), data_TTEXT = map row_of (inorder t)\<rparr>],
          vret = Some (length hp), column = cols\<rparr>
      else Inl AllocationFailure)"
proof -
  let ?s = "\<lparr>heap = hp @ [\<lparr>size_TTEXT = 0, data_TTEXT = []\<rparr>], vret = Some (length hp),
            column = cols\<rparr>"
  have "twalk t action_list ?s =
      (if length (data_TTEXT (heap ?s ! length hp)) + length (inorder t) < 268435456
       then Inr (appended ?s (length hp) (map row_of (inorder t))) else Inl AllocationFailure)"
    by (rule twalk_action_list) (simp_all add: counted_def)
  then show ?thesis
    by (simp add: appended_def)
qed

subsection \<open>The entry points that list an index\<close>

lemma state_all_updated:
  "(s :: state)\<lparr>heap := a, vret := b, column := c\<rparr> = \<lparr>heap = a, vret = b, column = c\<rparr>"
  by (cases s) simp

lemma get_attribute_values_list_cases:
  "get_attribute_values_list index_gtf g key s =
     (case index_gtf g key (column s) of
        (h, cols) \<Rightarrow>
          (case index_data cols h of
             Inl e \<Rightarrow> Inl e
           | Inr t \<Rightarrow>
              if length (inorder t) < 268435456
              then Inr (Some (length (heap s)), listed s cols t)
              else Inl AllocationFailure))"
proof (cases "index_gtf g key (column s)")
  case (Pair h cols)
  show ?thesis
  proof (cases "index_data cols h")
    case (Inl e)
    with Pair show ?thesis
      by (simp add: get_attribute_values_list_def bookmem_TTEXT_def)
  next
    case (Inr t)
    with Pair show ?thesis
      by (simp add: get_attribute_values_list_def bookmem_TTEXT_def state_all_updated
          walk_fresh_table listed_def)
  qed
qed

lemma get_feature_list_eq:
  "get_feature_list index_gtf g s = get_attribute_values_list index_gtf g ''feature'' s"
  by (simp add: get_feature_list_def get_attribute_values_list_def)

lemma get_seqid_list_eq:
  "get_seqid_list index_gtf g s = get_attribute_values_list index_gtf g ''seqid'' s"
  by (simp add: get_seqid_list_def get_attribute_values_list_def)

text \<open>
  C10. \<^verbatim>\<open>get_feature_list(gtf_data)\<close> returns what
  \<^verbatim>\<open>get_attribute_values_list(gtf_data, "feature")\<close> returns, and
  \<^verbatim>\<open>get_seqid_list(gtf_data)\<close> what \<^verbatim>\<open>get_attribute_values_list(gtf_data, "seqid")\<close>
  returns, from every memory and for every \<^verbatim>\<open>index_gtf\<close>: the same pointer, the same
  memory after the call, or the same failure. The three functions are one operation
  with the key as its parameter.
\<close>

theorem index_entry_points_one_operation:
  "get_feature_list index_gtf g = get_attribute_values_list index_gtf g ''feature''
   \<and> get_seqid_list index_gtf g = get_attribute_values_list index_gtf g ''seqid''"
  unfolding get_feature_list_def get_seqid_list_def get_attribute_values_list_def
  by (intro conjI ext refl)

lemma index_entry_point_run:
  "index_entry_point index_gtf g key run \<Longrightarrow>
   run s = get_attribute_values_list index_gtf g key s"
  by (auto simp: index_entry_point_def get_feature_list_eq get_seqid_list_eq)

lemma index_entry_point_listed:
  assumes "index_entry_point index_gtf g key run"
    and "index_gtf g key (column s) = (h, cols)"
    and "index_data cols h = Inr t"
    and "length (inorder t) < 268435456"
  shows "run s = Inr (Some (length (heap s)), listed s cols t)"
  using assms by (simp add: index_entry_point_run get_attribute_values_list_cases)

lemma index_entry_point_too_large:
  assumes "index_entry_point index_gtf g key run"
    and "index_gtf g key (column s) = (h, cols)"
    and "index_data cols h = Inr t"
    and "268435456 \<le> length (inorder t)"
  shows "run s = Inl AllocationFailure"
  using assms by (simp add: index_entry_point_run get_attribute_values_list_cases)

lemma index_entry_point_Inr:
  assumes "index_entry_point index_gtf g key run"
    and "run s = Inr (r, s')"
  shows "\<exists>t. index_data (snd (index_gtf g key (column s))) (fst (index_gtf g key (column s))) = Inr t
           \<and> length (inorder t) < 268435456
           \<and> r = Some (length (heap s)) \<and> s' = listed s (snd (index_gtf g key (column s))) t"
  using assms
  by (cases "index_gtf g key (column s)")
     (auto simp: index_entry_point_run get_attribute_values_list_cases
        split: sum.splits if_splits)

lemma index_entry_point_Inl:
  assumes "index_entry_point index_gtf g key run"
    and "index_gtf g key (column s) = (h, cols)"
    and "index_data cols h = Inl e"
  shows "run s = Inl e"
  using assms by (simp add: index_entry_point_run get_attribute_values_list_cases)

text \<open>The tree that \<^verbatim>\<open>column[index_id->column]->index[index_id->index_rank]->data\<close>
  designates, when the handle and both positions are valid.\<close>

lemma index_data_designates:
  assumes "0 \<le> column_ID i" and "column_ID i < int (length cols)"
    and "0 \<le> index_rank i"
    and "index_rank i < int (length (index (cols ! nat (column_ID i))))"
  shows "index_data cols (Some i)
     = Inr (data_INDEX (index (cols ! nat (column_ID i)) ! nat (index_rank i)))"
  using assms by (simp add: index_data_def deref_at_def)

lemma listed_table:
  "heap (listed s cols t) ! length (heap s) =
     \<lparr>size_TTEXT = int (length (inorder t)), data_TTEXT = map row_of (inorder t)\<rparr>"
  by (simp add: listed_def)

lemma listed_fields:
  "length (heap (listed s cols t)) = Suc (length (heap s))"
  "take (length (heap s)) (heap (listed s cols t)) = heap s"
  "vret (listed s cols t) = Some (length (heap s))"
  "column (listed s cols t) = cols"
  by (simp_all add: listed_def)

lemma second_field_row_of: "map (\<lambda>row. row ! 1) (map row_of es) = map token es"
  by (simp add: row_of_def)

lemma bst_sorted:
  "transp lt \<Longrightarrow> bst lt t \<Longrightarrow> sorted_wrt lt (map token (inorder t))"
proof (induction t)
  case Null
  then show ?case by simp
next
  case (Node l k r)
  have "lt (token x) (token y)"
    if "x \<in> set (inorder l)" and "y \<in> set (inorder r)" for x y
  proof -
    have "lt (token x) (token k)" "lt (token k) (token y)"
      using Node.prems(2) that by (auto simp: list_all_iff)
    then show ?thesis
      using Node.prems(1) by (blast dest: transpD)
  qed
  then show ?case
    using Node by (auto simp: sorted_wrt_append list_all_iff)
qed

lemma sorted_wrt_irrefl_distinct:
  "irreflp lt \<Longrightarrow> sorted_wrt lt xs \<Longrightarrow> distinct xs"
  by (induction xs) (auto dest: irreflpD)

lemma bst_distinct_count:
  assumes "transp lt" and "irreflp lt" and "bst lt t"
  shows "card (token ` set (inorder t)) = length (inorder t)"
proof -
  have "distinct (map token (inorder t))"
    using assms by (blast intro: sorted_wrt_irrefl_distinct bst_sorted)
  then have "card (set (map token (inorder t))) = length (map token (inorder t))"
    by (rule distinct_card)
  then show ?thesis by simp
qed

text \<open>The index that the collaborator of the specification builds is a search tree for
  the lexicographic order, and its tokens are the distinct values of the column.\<close>

lemma tokens_index_insert:
  "token ` set (inorder (index_insert v t)) = insert v (token ` set (inorder t))"
  by (induction t) auto

lemma bst_index_insert: "bst (<) t \<Longrightarrow> bst (<) (index_insert v t)"
proof (induction t)
  case Null
  then show ?case by simp
next
  case (Node l k r)
  have l: "list_all (\<lambda>e. token e < token k) (inorder (index_insert v l))" if "v < token k"
  proof -
    have "\<forall>x \<in> token ` set (inorder (index_insert v l)). x < token k"
      unfolding tokens_index_insert using that Node.prems by (auto simp: list_all_iff)
    then show ?thesis by (simp add: list_all_iff)
  qed
  have r: "list_all (\<lambda>e. token k < token e) (inorder (index_insert v r))" if "token k < v"
  proof -
    have "\<forall>x \<in> token ` set (inorder (index_insert v r)). token k < x"
      unfolding tokens_index_insert using that Node.prems by (auto simp: list_all_iff)
    then show ?thesis by (simp add: list_all_iff)
  qed
  show ?case
    using Node l r by auto
qed

lemma foldl_index_insert:
  "bst (<) t \<Longrightarrow>
   bst (<) (foldl (\<lambda>t v. index_insert v t) t vals)
   \<and> token ` set (inorder (foldl (\<lambda>t v. index_insert v t) t vals))
       = set vals \<union> token ` set (inorder t)"
  by (induction vals arbitrary: t) (auto simp: bst_index_insert tokens_index_insert)

lemma build_index_search_tree:
  "bst (<) (build_index vals)" "token ` set (inorder (build_index vals)) = set vals"
  using foldl_index_insert [of Null vals] by (simp_all add: build_index_def)

text \<open>
  C1, as the code has it. For every dataset and every key whose index exists (the
  handle that \<^verbatim>\<open>index_gtf\<close> returns designates, in the column and at the rank it names,
  the tree \<open>t\<close>) and has fewer than \<open>2^28\<close> entries, each of \<^verbatim>\<open>get_feature_list\<close>,
  \<^verbatim>\<open>get_seqid_list\<close> and \<^verbatim>\<open>get_attribute_values_list\<close> returns a table whose rows are,
  entry by entry from left to right through the whole tree, the row of the decimal text
  of \<^verbatim>\<open>nb_row\<close> and the \<^verbatim>\<open>token\<close>; the size field counts the rows. The tree being a
  search tree for the index's order (a transitive and irreflexive "is less" on the
  tokens), the number of rows is the number of distinct values in the index, and the
  values in the second field ascend.
\<close>

theorem index_listing_complete_inorder:
  assumes "index_entry_point index_gtf g key run"
    and "index_gtf g key (column s) = (Some i, cols)"
    and "0 \<le> column_ID i" and "column_ID i < int (length cols)"
    and "0 \<le> index_rank i"
    and "index_rank i < int (length (index (cols ! nat (column_ID i))))"
    and "t = data_INDEX (index (cols ! nat (column_ID i)) ! nat (index_rank i))"
    and "length (inorder t) < 268435456"
    and "transp lt" and "irreflp lt" and "bst lt t"
  shows "\<exists>p s'. run s = Inr (Some p, s') \<and> p < length (heap s')
           \<and> data_TTEXT (heap s' ! p) = map row_of (inorder t)
           \<and> size_TTEXT (heap s' ! p) = int (length (data_TTEXT (heap s' ! p)))
           \<and> length (data_TTEXT (heap s' ! p)) = card (token ` set (inorder t))
           \<and> sorted_wrt lt (map (\<lambda>row. row ! 1) (data_TTEXT (heap s' ! p)))"
proof -
  let ?p = "length (heap s)"
  let ?s' = "listed s cols t"
  have "index_data cols (Some i) = Inr t"
    using index_data_designates [OF assms(3-6)] assms(7) by simp
  then have "run s = Inr (Some ?p, ?s')"
    using assms(1,2,8) by (intro index_entry_point_listed)
  moreover have "?p < length (heap ?s')"
    by (simp add: listed_fields)
  moreover have "data_TTEXT (heap ?s' ! ?p) = map row_of (inorder t)"
    and "size_TTEXT (heap ?s' ! ?p) = int (length (data_TTEXT (heap ?s' ! ?p)))"
    by (simp_all add: listed_table)
  moreover have "length (data_TTEXT (heap ?s' ! ?p)) = card (token ` set (inorder t))"
    using bst_distinct_count [OF assms(9-11)] by (simp add: listed_table)
  moreover have "sorted_wrt lt (map (\<lambda>row. row ! 1) (data_TTEXT (heap ?s' ! ?p)))"
    using bst_sorted [OF assms(9,11)] by (simp only: listed_table TTEXT.simps second_field_row_of)
  ultimately show ?thesis by blast
qed

lemma example_index_gtf_feature:
  "index_gtf_spec example_gtf ''feature'' cols =
     (Some \<lparr>column_ID = 1, index_rank = 0\<rparr>,
      [\<lparr>index = [\<lparr>data_INDEX = build_index [''chr2'', ''chr1'', ''chr1'', ''chr2'']\<rparr>]\<rparr>,
       \<lparr>index = [\<lparr>data_INDEX = build_index [''exon'', ''exon'', ''gene'', ''exon'']\<rparr>]\<rparr>])"
  by (simp add: index_gtf_spec_def example_gtf_def)

lemma example_index_data_feature:
  "index_data
     [\<lparr>index = [\<lparr>data_INDEX = build_index [''chr2'', ''chr1'', ''chr1'', ''chr2'']\<rparr>]\<rparr>,
      \<lparr>index = [\<lparr>data_INDEX = build_index [''exon'', ''exon'', ''gene'', ''exon'']\<rparr>]\<rparr>]
     (Some \<lparr>column_ID = 1, index_rank = 0\<rparr>)
   = Inr (build_index [''exon'', ''exon'', ''gene'', ''exon''])"
  by (simp add: index_data_def deref_at_def)

lemma example_feature_index:
  "build_index [''exon'', ''exon'', ''gene'', ''exon''] =
     Node Null \<lparr>token = ''exon'', nb_row = 3\<rparr> (Node Null \<lparr>token = ''gene'', nb_row = 1\<rparr> Null)"
  by (simp add: build_index_def)

lemma example_feature_index_small:
  "length (inorder (build_index [''exon'', ''exon'', ''gene'', ''exon''])) < 268435456"
  by (simp add: example_feature_index)

lemma sprintf_d_examples:
  "sprintf_d 1 = ''1''" "sprintf_d 2 = ''2''" "sprintf_d 3 = ''3''"
  by (simp_all add: sprintf_d_def decimal.simps)

lemma ranked_index_gtf_feature:
  "ranked_index_gtf example_gtf ''feature'' cols =
     (Some \<lparr>column_ID = 1, index_rank = 1\<rparr>,
      [\<lparr>index = []\<rparr>,
       \<lparr>index = [\<lparr>data_INDEX = build_index [''chr2'', ''chr1'', ''chr1'', ''chr2'']\<rparr>,
                 \<lparr>data_INDEX = build_index [''exon'', ''exon'', ''gene'', ''exon'']\<rparr>]\<rparr>])"
  by (simp add: ranked_index_gtf_def example_gtf_def)

theorem index_listing_complete_inorder_witness:
  "index_entry_point ranked_index_gtf example_gtf ''feature''
     (get_feature_list ranked_index_gtf example_gtf)
   \<and> ranked_index_gtf example_gtf ''feature'' (column start) =
       (Some \<lparr>column_ID = 1, index_rank = 1\<rparr>,
        [\<lparr>index = []\<rparr>,
         \<lparr>index = [\<lparr>data_INDEX = build_index [''chr2'', ''chr1'', ''chr1'', ''chr2'']\<rparr>,
                   \<lparr>data_INDEX = build_index [''exon'', ''exon'', ''gene'', ''exon'']\<rparr>]\<rparr>])
   \<and> bst (<) (build_index [''exon'', ''exon'', ''gene'', ''exon''])
   \<and> (\<exists>p s'. get_feature_list ranked_index_gtf example_gtf start = Inr (Some p, s')
         \<and> p < length (heap s')
         \<and> data_TTEXT (heap s' ! p) = [[''3'', ''exon''], [''1'', ''gene'']]
         \<and> size_TTEXT (heap s' ! p) = 2
         \<and> sorted_wrt (<) (map (\<lambda>row. row ! 1) (data_TTEXT (heap s' ! p))))"
proof -
  let ?i = "\<lparr>column_ID = 1, index_rank = 1\<rparr>"
  let ?cols = "[\<lparr>index = []\<rparr>,
     \<lparr>index = [\<lparr>data_INDEX = build_index [''chr2'', ''chr1'', ''chr1'', ''chr2'']\<rparr>,
               \<lparr>data_INDEX = build_index [''exon'', ''exon'', ''gene'', ''exon'']\<rparr>]\<rparr>]"
  let ?t = "build_index [''exon'', ''exon'', ''gene'', ''exon'']"
  have h1: "index_entry_point ranked_index_gtf example_gtf ''feature''
     (get_feature_list ranked_index_gtf example_gtf)"
    by (simp add: index_entry_point_def)
  have h2: "ranked_index_gtf example_gtf ''feature'' (column start) = (Some ?i, ?cols)"
    by (rule ranked_index_gtf_feature)
  have h3: "0 \<le> column_ID ?i" and h4: "column_ID ?i < int (length ?cols)"
    and h5: "0 \<le> index_rank ?i"
    and h6: "index_rank ?i < int (length (index (?cols ! nat (column_ID ?i))))"
    and h7: "?t = data_INDEX (index (?cols ! nat (column_ID ?i)) ! nat (index_rank ?i))"
    by simp_all
  have h9: "transp ((<) :: string \<Rightarrow> string \<Rightarrow> bool)" by simp
  have h10: "irreflp ((<) :: string \<Rightarrow> string \<Rightarrow> bool)" by simp
  have h11: "bst (<) ?t"
    by (simp add: example_feature_index)
  show ?thesis
    using h1 h2 h11
      index_listing_complete_inorder
        [of ranked_index_gtf example_gtf "''feature''"
            "get_feature_list ranked_index_gtf example_gtf" start ?i ?cols ?t "(<)",
         OF h1 h2 h3 h4 h5 h6 h7 example_feature_index_small h9 h10 h11]
    by (auto simp: example_feature_index row_of_def sprintf_d_examples)
qed

text \<open>The large index is a search tree for the lexicographic order and has
  \<open>2^n - 1\<close> entries.\<close>

lemma append_less_append: "p @ u < p @ v \<longleftrightarrow> u < (v :: string)"
  by (induction p) simp_all

lemma tokens_full:
  "e \<in> set (inorder (full n p)) \<Longrightarrow> \<exists>q. q \<noteq> [] \<and> token e = p @ q"
proof (induction n arbitrary: p)
  case 0
  then show ?case by simp
next
  case (Suc n)
  from Suc.prems consider "e \<in> set (inorder (full n (p @ ''0'')))"
    | "e = \<lparr>token = p @ ''1'', nb_row = 1\<rparr>" | "e \<in> set (inorder (full n (p @ ''2'')))"
    by auto
  then show ?case
  proof cases
    case 1
    from Suc.IH [OF this] obtain q where "token e = (p @ ''0'') @ q" by blast
    then have "token e = p @ (''0'' @ q)" by simp
    then show ?thesis by blast
  next
    case 2
    then show ?thesis by simp
  next
    case 3
    from Suc.IH [OF this] obtain q where "token e = (p @ ''2'') @ q" by blast
    then have "token e = p @ (''2'' @ q)" by simp
    then show ?thesis by blast
  qed
qed

lemma bst_full: "bst (<) (full n p)"
proof (induction n arbitrary: p)
  case 0
  then show ?case by simp
next
  case (Suc n)
  have l: "token e < p @ ''1''" if "e \<in> set (inorder (full n (p @ ''0'')))" for e
  proof -
    from tokens_full [OF that] obtain q where "token e = p @ (''0'' @ q)" by auto
    then show ?thesis by (simp add: append_less_append)
  qed
  have r: "p @ ''1'' < token e" if "e \<in> set (inorder (full n (p @ ''2'')))" for e
  proof -
    from tokens_full [OF that] obtain q where "token e = p @ (''2'' @ q)" by auto
    then show ?thesis by (simp add: append_less_append)
  qed
  show ?case
    using Suc.IH l r by (simp add: list_all_iff)
qed

lemma length_inorder_full: "Suc (length (inorder (full n p))) = 2 ^ n"
  by (induction n arbitrary: p) simp_all

lemma large_index_entries: "length (inorder (full 29 [])) = 536870911"
  using length_inorder_full [of 29 "[]"] by simp

text \<open>
  C1, as stated, fails: for an index of \<open>2^29 - 1\<close> distinct values, a search tree for
  the lexicographic order, \<^verbatim>\<open>get_feature_list\<close> returns no table. At the entry that
  would be row \<open>2^28\<close>, line 31 passes \<open>2^28 * 8 = 2^31\<close> bytes for the \<^verbatim>\<open>int\<close> parameter
  of \<^verbatim>\<open>rebookmem\<close>, which receives \<open>- 2^31\<close>.
\<close>

theorem large_index_not_listed:
  "bst (<) (full 29 [])
   \<and> length (inorder (full 29 [])) = 536870911
   \<and> large_index_gtf () ''feature'' (column start)
       = (Some \<lparr>column_ID = 0, index_rank = 0\<rparr>, [\<lparr>index = [\<lparr>data_INDEX = full 29 []\<rparr>]\<rparr>])
   \<and> get_feature_list large_index_gtf () start = Inl AllocationFailure"
proof -
  have ep: "index_entry_point large_index_gtf () ''feature'' (get_feature_list large_index_gtf ())"
    by (simp add: index_entry_point_def)
  have h: "large_index_gtf () ''feature'' (column start)
       = (Some \<lparr>column_ID = 0, index_rank = 0\<rparr>, [\<lparr>index = [\<lparr>data_INDEX = full 29 []\<rparr>]\<rparr>])"
    by (simp add: large_index_gtf_def)
  have d: "index_data [\<lparr>index = [\<lparr>data_INDEX = full 29 []\<rparr>]\<rparr>]
      (Some \<lparr>column_ID = 0, index_rank = 0\<rparr>) = Inr (full 29 [])"
    by (simp add: index_data_def deref_at_def del: full.simps)
  have big: "268435456 \<le> length (inorder (full 29 []))"
    by (simp only: large_index_entries)
  have "get_feature_list large_index_gtf () start = Inl AllocationFailure"
    using index_entry_point_too_large
      [of large_index_gtf "()" "''feature''" "get_feature_list large_index_gtf ()" start
          "Some \<lparr>column_ID = 0, index_rank = 0\<rparr>" "[\<lparr>index = [\<lparr>data_INDEX = full 29 []\<rparr>]\<rparr>]"
          "full 29 []", OF ep h d big] .
  then show ?thesis
    using bst_full [of 29 "[]"] large_index_entries h by blast
qed

subsection \<open>The loop of get\_attribute\_list\<close>

lemma filled_step:
  assumes "0 \<le> i" and "i < nb sl" and "nat i < length d"
  shows "filled sl (i + 1) (d[nat i := [list sl ! nat i]]) = filled sl i d"
proof (rule nth_equalityI)
  show "length (filled sl (i + 1) (d[nat i := [list sl ! nat i]])) = length (filled sl i d)"
    by (simp add: filled_def)
next
  fix j
  assume "j < length (filled sl (i + 1) (d[nat i := [list sl ! nat i]]))"
  then have j: "j < length d" by (simp add: filled_def)
  show "filled sl (i + 1) (d[nat i := [list sl ! nat i]]) ! j = filled sl i d ! j"
  proof (cases "j = nat i")
    case True
    then show ?thesis using assms j by (simp add: filled_def)
  next
    case False
    then have "i + 1 \<le> int j \<longleftrightarrow> i \<le> int j" using assms(1) by linarith
    then show ?thesis using False j by (simp add: filled_def)
  qed
qed

lemma filled_done: "nb sl \<le> i \<Longrightarrow> filled sl i d = d"
  unfolding filled_def by (rule nth_equalityI) auto

lemma with_data_fields:
  "vret (with_data s p d) = vret s"
  "column (with_data s p d) = column s"
  "length (heap (with_data s p d)) = length (heap s)"
  by (simp_all add: with_data_def)

lemma with_data_at:
  "p < length (heap s) \<Longrightarrow> data_TTEXT (heap (with_data s p d) ! p) = d"
  by (simp add: with_data_def)

lemma with_data_twice:
  "with_data (with_data s p d) p d' = with_data s p d'"
  by (cases "p < length (heap s)") (simp_all add: with_data_def list_update_beyond)

lemma with_data_same:
  "with_data s p (data_TTEXT (heap s ! p)) = s"
  by (simp add: with_data_def)

lemma fill_list_Inr:
  "fill_list sl i s = Inr s' \<Longrightarrow> vret s = Some p \<Longrightarrow> 0 \<le> i \<Longrightarrow>
   s' = with_data s p (filled sl i (data_TTEXT (heap s ! p)))"
proof (induction sl i s rule: fill_list.induct)
  case (1 sl i s)
  show ?case
  proof (cases "i < nb sl")
    case False
    then show ?thesis
      using "1.prems"(1) by (simp add: fill_list.simps [of sl i s] filled_done with_data_same)
  next
    case True
    let ?d = "data_TTEXT (heap s ! p)"
    from True "1.prems" have p: "p < length (heap s)"
      by (simp add: fill_list.simps [of sl i s] split: if_splits)
    from True "1.prems" p have d: "nat i < length ?d" and l: "nat i < length (list sl)"
      by (auto simp: fill_list.simps [of sl i s] deref_at_def split: if_splits sum.splits)
    let ?s1 = "s\<lparr>heap := (heap s)[p := (heap s ! p)
                 \<lparr>data_TTEXT := ?d[nat i := [list sl ! nat i]]\<rparr>]\<rparr>"
    have s1: "?s1 = with_data s p (?d[nat i := [list sl ! nat i]])"
      by (simp add: with_data_def)
    have dd: "deref_at ?d i = Inr (?d ! nat i)" "deref_at (list sl) i = Inr (list sl ! nat i)"
      using d l "1.prems"(3) by (simp_all add: deref_at_def)
    have rec: "fill_list sl (i + 1) ?s1 = Inr s'"
      using "1.prems"(1,2) True p dd
      by (simp add: fill_list.simps [of sl i s])
    have v1: "vret ?s1 = Some p" using "1.prems"(2) by simp
    have i1: "0 \<le> i + 1" using "1.prems"(3) by simp
    have "s' = with_data ?s1 p (filled sl (i + 1) (data_TTEXT (heap ?s1 ! p)))"
      by (rule "1.IH" [OF True "1.prems"(2) p dd(1) dd(2) rec v1 i1])
    then show ?thesis
      unfolding s1 using p d True "1.prems"(3)
      by (simp add: with_data_twice with_data_at filled_step)
  qed
qed

lemma fill_list_succeeds:
  "vret s = Some p \<Longrightarrow> p < length (heap s) \<Longrightarrow> 0 \<le> i \<Longrightarrow>
   nb sl \<le> int (length (data_TTEXT (heap s ! p))) \<Longrightarrow> nb sl \<le> int (length (list sl)) \<Longrightarrow>
   \<exists>s'. fill_list sl i s = Inr s'"
proof (induction sl i s rule: fill_list.induct)
  case (1 sl i s)
  show ?case
  proof (cases "i < nb sl")
    case False
    then show ?thesis by (simp add: fill_list.simps [of sl i s])
  next
    case True
    let ?d = "data_TTEXT (heap s ! p)"
    let ?s1 = "s\<lparr>heap := (heap s)[p := (heap s ! p)
                 \<lparr>data_TTEXT := ?d[nat i := [list sl ! nat i]]\<rparr>]\<rparr>"
    have dd: "deref_at ?d i = Inr (?d ! nat i)" "deref_at (list sl) i = Inr (list sl ! nat i)"
      using True "1.prems" by (simp_all add: deref_at_def)
    have "\<exists>s'. fill_list sl (i + 1) ?s1 = Inr s'"
      using "1.prems" by (intro "1.IH" [OF True "1.prems"(1,2) dd]) simp_all
    then show ?thesis
      using True "1.prems"(1,2) dd by (simp add: fill_list.simps [of sl i s])
  qed
qed

text \<open>In a fresh array the loop leaves the names, one per row, in the order of the
  list.\<close>

lemma filled_fresh_rows:
  "filled l 0 (bookmem_rows (nb l)) = map (\<lambda>j. [list l ! j]) [0..<nat (nb l)]"
  unfolding filled_def bookmem_rows_def by (rule nth_equalityI) auto

lemma names_in_order:
  assumes "nb l = int (length (list l))"
  shows "map (\<lambda>j. [list l ! j]) [0..<nat (nb l)] = map (\<lambda>name. [name]) (list l)"
  using assms by (intro nth_equalityI) simp_all

lemma state_two_updated:
  "(s :: state)\<lparr>vret := b, heap := a\<rparr> = \<lparr>heap = a, vret = b, column = column s\<rparr>"
  by (cases s) simp

lemma get_attribute_list_Inr:
  assumes "get_attribute_list get_all_attributes g s = Inr (r, s')"
  shows "\<exists>l. get_all_attributes g = Some l \<and> r = Some (length (heap s))
           \<and> s' = \<lparr>heap = heap s @
                      [\<lparr>size_TTEXT = nb l,
                        data_TTEXT = map (\<lambda>j. [list l ! j]) [0..<nat (nb l)]\<rparr>],
                    vret = Some (length (heap s)), column = column s\<rparr>"
proof (cases "get_all_attributes g")
  case None
  with assms show ?thesis
    by (simp add: get_attribute_list_def bookmem_TTEXT_def)
next
  case (Some l)
  let ?p = "length (heap s)"
  let ?s3 = "\<lparr>heap = heap s @ [\<lparr>size_TTEXT = 0, data_TTEXT = bookmem_rows (nb l)\<rparr>],
             vret = Some ?p, column = column s\<rparr>"
  from assms Some obtain s4 where s4: "fill_list l 0 ?s3 = Inr s4"
    by (auto simp: get_attribute_list_def bookmem_TTEXT_def state_two_updated
        split: sum.splits)
  have "s4 = with_data ?s3 ?p (filled l 0 (data_TTEXT (heap ?s3 ! ?p)))"
    using s4 by (rule fill_list_Inr) simp_all
  then have s4': "s4 = \<lparr>heap = heap s @
        [\<lparr>size_TTEXT = 0, data_TTEXT = map (\<lambda>j. [list l ! j]) [0..<nat (nb l)]\<rparr>],
      vret = Some ?p, column = column s\<rparr>"
    by (simp add: with_data_def filled_fresh_rows)
  from assms Some s4 show ?thesis
    by (auto simp: get_attribute_list_def bookmem_TTEXT_def state_two_updated s4')
qed

lemma get_attribute_list_succeeds:
  assumes "get_all_attributes g = Some l" and "nb l \<le> int (length (list l))"
  shows "\<exists>r s'. get_attribute_list get_all_attributes g s = Inr (r, s')"
proof -
  let ?p = "length (heap s)"
  let ?s3 = "\<lparr>heap = heap s @ [\<lparr>size_TTEXT = 0, data_TTEXT = bookmem_rows (nb l)\<rparr>],
             vret = Some ?p, column = column s\<rparr>"
  have "\<exists>s4. fill_list l 0 ?s3 = Inr s4"
    using assms(2) by (intro fill_list_succeeds [where p = ?p]) (simp_all add: bookmem_rows_def)
  then obtain s4 where s4: "fill_list l 0 ?s3 = Inr s4" ..
  have "s4 = with_data ?s3 ?p (filled l 0 (data_TTEXT (heap ?s3 ! ?p)))"
    using s4 by (rule fill_list_Inr) simp_all
  then have "vret s4 = Some ?p" "?p < length (heap s4)"
    by (simp_all add: with_data_fields)
  then show ?thesis
    using assms(1) s4
    by (simp add: get_attribute_list_def bookmem_TTEXT_def state_two_updated)
qed

lemma example_feature_run:
  "get_feature_list index_gtf_spec example_gtf start =
     Inr (Some 0,
       listed start
         [\<lparr>index = [\<lparr>data_INDEX = build_index [''chr2'', ''chr1'', ''chr1'', ''chr2'']\<rparr>]\<rparr>,
          \<lparr>index = [\<lparr>data_INDEX = build_index [''exon'', ''exon'', ''gene'', ''exon'']\<rparr>]\<rparr>]
         (build_index [''exon'', ''exon'', ''gene'', ''exon'']))"
proof -
  have "index_entry_point index_gtf_spec example_gtf ''feature''
          (get_feature_list index_gtf_spec example_gtf)"
    by (simp add: index_entry_point_def)
  from index_entry_point_listed
    [OF this, OF example_index_gtf_feature example_index_data_feature
       example_feature_index_small, of start]
  show ?thesis by (simp add: start_def)
qed

lemma example_attributes_run:
  "get_attribute_list example_attributes example_gtf start =
     Inr (Some 0,
       \<lparr>heap = [\<lparr>size_TTEXT = 3,
                 data_TTEXT = [[''gene_id''], [''transcript_id''], [''exon_number'']]\<rparr>],
        vret = Some 0, column = []\<rparr>)"
proof -
  have "\<exists>r s'. get_attribute_list example_attributes example_gtf start = Inr (r, s')"
    using get_attribute_list_succeeds
      [of example_attributes example_gtf
          "\<lparr>list = [''gene_id'', ''transcript_id'', ''exon_number''], nb = 3\<rparr>" start]
    by (simp add: example_attributes_def)
  then obtain r s' where run: "get_attribute_list example_attributes example_gtf start = Inr (r, s')"
    by blast
  have u: "[0..<3] = [0, 1, 2]" by (simp add: upt_rec)
  from get_attribute_list_Inr [OF run] show ?thesis
    unfolding run by (simp add: example_attributes_def start_def u)
qed

text \<open>
  C2. For every dataset whose enumerated attribute names are a well-formed
  \<^verbatim>\<open>STRING_LIST\<close> (\<^verbatim>\<open>nb\<close> is the number of its strings), \<^verbatim>\<open>get_attribute_list\<close> returns a
  table with one row of the single field \<open>name\<close> per entry of the list, in the order of
  the list; the size field is the length of the list; and the table has no duplicate row
  when the enumerator's list has no duplicate name.
\<close>

theorem attribute_names_listed_in_order:
  assumes "get_all_attributes g = Some sl" and "nb sl = int (length (list sl))"
  shows "\<exists>p s'. get_attribute_list get_all_attributes g s = Inr (Some p, s')
           \<and> p < length (heap s')
           \<and> data_TTEXT (heap s' ! p) = map (\<lambda>name. [name]) (list sl)
           \<and> size_TTEXT (heap s' ! p) = int (length (list sl))
           \<and> (distinct (list sl) \<longrightarrow> distinct (data_TTEXT (heap s' ! p)))"
proof -
  obtain r s' where run: "get_attribute_list get_all_attributes g s = Inr (r, s')"
    using get_attribute_list_succeeds [of get_all_attributes g sl s] assms by fastforce
  have inj: "inj (\<lambda>name :: string. [name])"
    by (simp add: inj_def)
  from get_attribute_list_Inr [OF run] assms
  have r: "r = Some (length (heap s))"
    and s': "s' = \<lparr>heap = heap s @
                [\<lparr>size_TTEXT = int (length (list sl)),
                  data_TTEXT = map (\<lambda>name. [name]) (list sl)\<rparr>],
              vret = Some (length (heap s)), column = column s\<rparr>"
    using names_in_order [OF assms(2)] by auto
  show ?thesis
    unfolding run r s' using inj by (simp add: distinct_map inj_on_def)
qed

theorem attribute_names_listed_in_order_witness:
  "example_attributes example_gtf
     = Some \<lparr>list = [''gene_id'', ''transcript_id'', ''exon_number''], nb = 3\<rparr>
   \<and> distinct [''gene_id'', ''transcript_id'', ''exon_number'']
   \<and> (\<exists>p s'. get_attribute_list example_attributes example_gtf start = Inr (Some p, s')
         \<and> p < length (heap s')
         \<and> data_TTEXT (heap s' ! p) = [[''gene_id''], [''transcript_id''], [''exon_number'']]
         \<and> size_TTEXT (heap s' ! p) = 3
         \<and> distinct (data_TTEXT (heap s' ! p)))"
proof -
  have h1: "example_attributes example_gtf
     = Some \<lparr>list = [''gene_id'', ''transcript_id'', ''exon_number''], nb = 3\<rparr>"
    by (simp add: example_attributes_def)
  have h2: "nb \<lparr>list = [''gene_id'', ''transcript_id'', ''exon_number''], nb = 3\<rparr>
     = int (length (list \<lparr>list = [''gene_id'', ''transcript_id'', ''exon_number''], nb = 3\<rparr>))"
    by simp
  show ?thesis
    using h1 attribute_names_listed_in_order
      [of example_attributes example_gtf
          "\<lparr>list = [''gene_id'', ''transcript_id'', ''exon_number''], nb = 3\<rparr>" start, OF h1 h2]
    by auto
qed

subsection \<open>Empty indexes, arity, failures\<close>

lemma no_rows_index_gtf_feature:
  "index_gtf_spec no_rows_gtf ''feature'' cols =
     (Some \<lparr>column_ID = 1, index_rank = 0\<rparr>,
      [\<lparr>index = [\<lparr>data_INDEX = Null\<rparr>]\<rparr>, \<lparr>index = [\<lparr>data_INDEX = Null\<rparr>]\<rparr>])"
  by (simp add: index_gtf_spec_def no_rows_gtf_def build_index_def)

lemma no_rows_index_data_feature:
  "index_data [\<lparr>index = [\<lparr>data_INDEX = Null\<rparr>]\<rparr>, \<lparr>index = [\<lparr>data_INDEX = Null\<rparr>]\<rparr>]
     (Some \<lparr>column_ID = 1, index_rank = 0\<rparr>) = Inr Null"
  by (simp add: index_data_def deref_at_def)

text \<open>
  C4. For every dataset and key whose index exists and is empty (the handle designates
  the empty tree, as for a dataset without rows), each of \<^verbatim>\<open>get_feature_list\<close>,
  \<^verbatim>\<open>get_seqid_list\<close> and \<^verbatim>\<open>get_attribute_values_list\<close> returns normally, and the table it
  returns has size 0 and no row. This outcome is a return, not the failure UnknownKey.
\<close>

theorem empty_index_gives_empty_table:
  assumes "index_entry_point index_gtf g key run"
    and "index_gtf g key (column s) = (h, cols)"
    and "index_data cols h = Inr Null"
  shows "\<exists>p s'. run s = Inr (Some p, s') \<and> p < length (heap s')
           \<and> heap s' ! p = \<lparr>size_TTEXT = 0, data_TTEXT = []\<rparr>
           \<and> run s \<noteq> Inl UnknownKey"
proof -
  have "run s = Inr (Some (length (heap s)), listed s cols Null)"
    using index_entry_point_listed [of index_gtf g key run s h cols Null] assms by simp
  moreover have "heap (listed s cols Null) ! length (heap s) = \<lparr>size_TTEXT = 0, data_TTEXT = []\<rparr>"
    by (simp add: listed_table)
  moreover have "length (heap s) < length (heap (listed s cols Null))"
    by (simp add: listed_fields)
  ultimately show ?thesis by auto
qed

theorem empty_index_gives_empty_table_witness:
  "index_entry_point index_gtf_spec no_rows_gtf ''feature''
     (get_feature_list index_gtf_spec no_rows_gtf)
   \<and> (\<exists>p s'. get_feature_list index_gtf_spec no_rows_gtf start = Inr (Some p, s')
         \<and> p < length (heap s')
         \<and> heap s' ! p = \<lparr>size_TTEXT = 0, data_TTEXT = []\<rparr>
         \<and> get_feature_list index_gtf_spec no_rows_gtf start \<noteq> Inl UnknownKey)"
proof -
  have h1: "index_entry_point index_gtf_spec no_rows_gtf ''feature''
     (get_feature_list index_gtf_spec no_rows_gtf)"
    by (simp add: index_entry_point_def)
  show ?thesis
    using h1 empty_index_gives_empty_table
      [OF h1, OF no_rows_index_gtf_feature no_rows_index_data_feature, of start]
    by simp
qed

lemma row_of_arity: "list_all (\<lambda>row. length row = 2) (map row_of es)"
  by (simp add: list_all_iff row_of_def)

text \<open>
  C5. In the table that one call returns all rows have the same number of fields: two in
  every row of a table returned by \<^verbatim>\<open>get_feature_list\<close>, \<^verbatim>\<open>get_seqid_list\<close> or
  \<^verbatim>\<open>get_attribute_values_list\<close>, one in every row of a table returned by
  \<^verbatim>\<open>get_attribute_list\<close>.
\<close>

theorem rows_share_one_arity:
  "(index_entry_point index_gtf g key run \<and> run s = Inr (Some p, s')
      \<longrightarrow> list_all (\<lambda>row. length row = 2) (data_TTEXT (heap s' ! p)))
   \<and> (get_attribute_list get_all_attributes g' s = Inr (Some q, s'')
      \<longrightarrow> list_all (\<lambda>row. length row = 1) (data_TTEXT (heap s'' ! q)))"
proof (intro conjI impI)
  assume "index_entry_point index_gtf g key run \<and> run s = Inr (Some p, s')"
  then obtain t where "Some p = Some (length (heap s))"
    and "s' = listed s (snd (index_gtf g key (column s))) t"
    using index_entry_point_Inr [of index_gtf g key run s "Some p" s'] by blast
  then show "list_all (\<lambda>row. length row = 2) (data_TTEXT (heap s' ! p))"
    by (simp add: listed_table row_of_arity)
next
  assume "get_attribute_list get_all_attributes g' s = Inr (Some q, s'')"
  from get_attribute_list_Inr [OF this]
  show "list_all (\<lambda>row. length row = 1) (data_TTEXT (heap s'' ! q))"
    by (auto simp: list_all_iff)
qed

theorem rows_share_one_arity_witness:
  "index_entry_point index_gtf_spec example_gtf ''feature''
     (get_feature_list index_gtf_spec example_gtf)
   \<and> (\<exists>s'. get_feature_list index_gtf_spec example_gtf start = Inr (Some 0, s')
         \<and> list_all (\<lambda>row. length row = 2) (data_TTEXT (heap s' ! 0)))
   \<and> (\<exists>s''. get_attribute_list example_attributes example_gtf start = Inr (Some 0, s'')
         \<and> list_all (\<lambda>row. length row = 1) (data_TTEXT (heap s'' ! 0)))"
proof -
  have h1: "index_entry_point index_gtf_spec example_gtf ''feature''
     (get_feature_list index_gtf_spec example_gtf)"
    by (simp add: index_entry_point_def)
  show ?thesis
    using h1 example_feature_run example_attributes_run
      rows_share_one_arity
        [of index_gtf_spec example_gtf "''feature''" "get_feature_list index_gtf_spec example_gtf"
            start 0 _ example_attributes example_gtf 0]
    by blast
qed

lemma index_data_not_UnknownKey: "index_data cols h \<noteq> Inl UnknownKey"
  by (auto simp: index_data_def deref_at_def split: option.splits sum.splits if_splits)

lemma index_data_None: "index_data cols None = Inl NullDereference"
  by (simp add: index_data_def)

text \<open>
  C3, as the code has it. No entry point that lists an index ever ends with UnknownKey:
  the source has no error path. When \<^verbatim>\<open>index_gtf\<close> returns no handle (the null pointer)
  the call dereferences it on line 62, 83 or 138, an invalid memory access: nothing is
  returned to the caller, neither a table nor an error. Whenever \<^verbatim>\<open>index_gtf\<close> returns a
  handle that designates an index of fewer than \<open>2^28\<close> entries, the call returns the
  table of that index.
\<close>

theorem no_error_path_in_index_listing:
  "(index_entry_point index_gtf g key run \<longrightarrow> run s \<noteq> Inl UnknownKey)
   \<and> (index_entry_point index_gtf g key run \<and> fst (index_gtf g key (column s)) = None
        \<longrightarrow> run s = Inl NullDereference)
   \<and> (index_entry_point index_gtf g key run \<and> index_gtf g key (column s) = (h, cols)
        \<and> index_data cols h = Inr t \<and> length (inorder t) < 268435456
        \<longrightarrow> run s = Inr (Some (length (heap s)), listed s cols t))"
proof (intro conjI impI)
  assume ep: "index_entry_point index_gtf g key run"
  show "run s \<noteq> Inl UnknownKey"
    using index_data_not_UnknownKey
    by (cases "index_gtf g key (column s)")
       (auto simp: index_entry_point_run [OF ep] get_attribute_values_list_cases
          split: sum.splits)
next
  assume a: "index_entry_point index_gtf g key run \<and> fst (index_gtf g key (column s)) = None"
  then show "run s = Inl NullDereference"
    by (cases "index_gtf g key (column s)")
       (auto simp: index_entry_point_run get_attribute_values_list_cases index_data_None)
next
  assume "index_entry_point index_gtf g key run \<and> index_gtf g key (column s) = (h, cols)
        \<and> index_data cols h = Inr t \<and> length (inorder t) < 268435456"
  then show "run s = Inr (Some (length (heap s)), listed s cols t)"
    by (blast intro: index_entry_point_listed)
qed

text \<open>
  C3, as stated, fails: for a collaborator that signals failure by returning the null
  pointer and the attribute name \<^verbatim>\<open>no_such_attribute\<close>, \<^verbatim>\<open>get_attribute_values_list\<close> does
  not end with UnknownKey but with the dereference of the null pointer.
\<close>

theorem unknown_key_not_propagated:
  "get_attribute_values_list failing_index_gtf example_gtf ''no_such_attribute'' start
     = Inl NullDereference
   \<and> get_attribute_values_list failing_index_gtf example_gtf ''no_such_attribute'' start
     \<noteq> Inl UnknownKey"
  by (simp add: get_attribute_values_list_cases failing_index_gtf_def index_data_None)

theorem no_error_path_in_index_listing_witness:
  "index_entry_point failing_index_gtf example_gtf ''no_such_attribute''
     (get_attribute_values_list failing_index_gtf example_gtf ''no_such_attribute'')
   \<and> fst (failing_index_gtf example_gtf ''no_such_attribute'' (column start)) = None
   \<and> get_attribute_values_list failing_index_gtf example_gtf ''no_such_attribute'' start
       = Inl NullDereference
   \<and> index_entry_point index_gtf_spec example_gtf ''feature''
       (get_feature_list index_gtf_spec example_gtf)
   \<and> length (inorder (build_index [''exon'', ''exon'', ''gene'', ''exon''])) < 268435456
   \<and> get_feature_list index_gtf_spec example_gtf start \<noteq> Inl UnknownKey
   \<and> get_feature_list index_gtf_spec example_gtf start =
       Inr (Some (length (heap start)),
         listed start
           [\<lparr>index = [\<lparr>data_INDEX = build_index [''chr2'', ''chr1'', ''chr1'', ''chr2'']\<rparr>]\<rparr>,
            \<lparr>index = [\<lparr>data_INDEX = build_index [''exon'', ''exon'', ''gene'', ''exon'']\<rparr>]\<rparr>]
           (build_index [''exon'', ''exon'', ''gene'', ''exon'']))"
proof -
  have h1: "index_entry_point failing_index_gtf example_gtf ''no_such_attribute''
     (get_attribute_values_list failing_index_gtf example_gtf ''no_such_attribute'')"
    by (simp add: index_entry_point_def)
  have h2: "fst (failing_index_gtf example_gtf ''no_such_attribute'' (column start)) = None"
    by (simp add: failing_index_gtf_def)
  have h3: "index_entry_point index_gtf_spec example_gtf ''feature''
       (get_feature_list index_gtf_spec example_gtf)"
    by (simp add: index_entry_point_def)
  have a: "get_attribute_values_list failing_index_gtf example_gtf ''no_such_attribute'' start
       = Inl NullDereference"
    using h1 h2 no_error_path_in_index_listing
      [of failing_index_gtf example_gtf "''no_such_attribute''"
          "get_attribute_values_list failing_index_gtf example_gtf ''no_such_attribute''" start]
    by blast
  have b: "get_feature_list index_gtf_spec example_gtf start \<noteq> Inl UnknownKey"
    "get_feature_list index_gtf_spec example_gtf start =
       Inr (Some (length (heap start)),
         listed start
           [\<lparr>index = [\<lparr>data_INDEX = build_index [''chr2'', ''chr1'', ''chr1'', ''chr2'']\<rparr>]\<rparr>,
            \<lparr>index = [\<lparr>data_INDEX = build_index [''exon'', ''exon'', ''gene'', ''exon'']\<rparr>]\<rparr>]
           (build_index [''exon'', ''exon'', ''gene'', ''exon'']))"
    using h3 example_index_gtf_feature [of "column start"] example_index_data_feature
      example_feature_index_small
      no_error_path_in_index_listing
        [of index_gtf_spec example_gtf "''feature''"
            "get_feature_list index_gtf_spec example_gtf" start
            "Some \<lparr>column_ID = 1, index_rank = 0\<rparr>"
            "[\<lparr>index = [\<lparr>data_INDEX = build_index [''chr2'', ''chr1'', ''chr1'', ''chr2'']\<rparr>]\<rparr>,
              \<lparr>index = [\<lparr>data_INDEX = build_index [''exon'', ''exon'', ''gene'', ''exon'']\<rparr>]\<rparr>]"
            "build_index [''exon'', ''exon'', ''gene'', ''exon'']"]
    by blast+
  show ?thesis
    using h1 h2 h3 a b example_feature_index_small by blast
qed

subsection \<open>Repeated calls and the frame\<close>

lemma fill_list_Inr_bound:
  "fill_list sl i s = Inr s' \<Longrightarrow> 0 \<le> i \<Longrightarrow> nb sl \<le> int (length (list sl)) \<or> nb sl \<le> i"
proof (induction sl i s rule: fill_list.induct)
  case (1 sl i s)
  show ?case
  proof (cases "i < nb sl")
    case False
    then show ?thesis by simp
  next
    case True
    from True "1.prems" obtain p where p: "vret s = Some p" "p < length (heap s)"
      by (auto simp: fill_list.simps [of sl i s] split: option.splits if_splits)
    from True "1.prems" p obtain xa where xa: "deref_at (data_TTEXT (heap s ! p)) i = Inr xa"
      by (auto simp: fill_list.simps [of sl i s] split: sum.splits)
    from True "1.prems" p xa obtain xb where xb: "deref_at (list sl) i = Inr xb"
      by (auto simp: fill_list.simps [of sl i s] split: sum.splits)
    have rec: "fill_list sl (i + 1)
        (s\<lparr>heap := (heap s)[p := (heap s ! p)
           \<lparr>data_TTEXT := (data_TTEXT (heap s ! p))[nat i := [xb]]\<rparr>]\<rparr>) = Inr s'"
      using True "1.prems"(1) p xa xb by (simp add: fill_list.simps [of sl i s])
    have i1: "0 \<le> i + 1" using "1.prems"(2) by simp
    have "nb sl \<le> int (length (list sl)) \<or> nb sl \<le> i + 1"
      by (rule "1.IH" [OF True p xa xb rec i1])
    moreover have "i < int (length (list sl))"
      using xb by (simp add: deref_at_def split: if_splits)
    ultimately show ?thesis by linarith
  qed
qed

lemma get_attribute_list_Inr_bound:
  assumes "get_attribute_list get_all_attributes g s = Inr (r, s')"
    and "get_all_attributes g = Some l"
  shows "nb l \<le> int (length (list l))"
proof -
  from assms obtain s4 where "fill_list l 0
      (s\<lparr>vret := Some (length (heap s)),
         heap := heap s @ [\<lparr>size_TTEXT = 0, data_TTEXT = bookmem_rows (nb l)\<rparr>]\<rparr>) = Inr s4"
    by (auto simp: get_attribute_list_def bookmem_TTEXT_def split: sum.splits)
  from fill_list_Inr_bound [OF this] show ?thesis by linarith
qed

text \<open>
  C6. When an entry point returned a table and is called again in the memory the first
  call left, on the same dataset and key, with the index of that key unchanged (the
  handle \<^verbatim>\<open>index_gtf\<close> returns designates the same tree as before), the second call
  returns a table with the same rows in the same order and the same size as the first;
  the first table is still what it was. The same holds for \<^verbatim>\<open>get_attribute_list\<close> with
  the same enumerated names.
\<close>

theorem repeated_call_same_table:
  "(index_entry_point index_gtf g key run \<and> run s = Inr (Some p1, s1)
      \<and> index_data (snd (index_gtf g key (column s1))) (fst (index_gtf g key (column s1)))
          = index_data (snd (index_gtf g key (column s))) (fst (index_gtf g key (column s)))
      \<longrightarrow> (\<exists>p2 s2. run s1 = Inr (Some p2, s2) \<and> heap s2 ! p2 = heap s1 ! p1
             \<and> heap s2 ! p1 = heap s1 ! p1))
   \<and> (get_attribute_list get_all_attributes g' s = Inr (Some q1, t1)
      \<longrightarrow> (\<exists>q2 t2. get_attribute_list get_all_attributes g' t1 = Inr (Some q2, t2)
             \<and> heap t2 ! q2 = heap t1 ! q1 \<and> heap t2 ! q1 = heap t1 ! q1))"
proof (intro conjI impI)
  assume a: "index_entry_point index_gtf g key run \<and> run s = Inr (Some p1, s1)
      \<and> index_data (snd (index_gtf g key (column s1))) (fst (index_gtf g key (column s1)))
          = index_data (snd (index_gtf g key (column s))) (fst (index_gtf g key (column s)))"
  then have ep: "index_entry_point index_gtf g key run" by simp
  from a obtain t where t: "index_data (snd (index_gtf g key (column s)))
      (fst (index_gtf g key (column s))) = Inr t"
    and small: "length (inorder t) < 268435456"
    and p1: "p1 = length (heap s)"
    and s1: "s1 = listed s (snd (index_gtf g key (column s))) t"
    using index_entry_point_Inr [of index_gtf g key run s "Some p1" s1] by auto
  have "index_data (snd (index_gtf g key (column s1))) (fst (index_gtf g key (column s1))) = Inr t"
    using a t by simp
  then have run2: "run s1 = Inr (Some (length (heap s1)),
      listed s1 (snd (index_gtf g key (column s1))) t)"
    using index_entry_point_listed
      [OF ep, of s1 "fst (index_gtf g key (column s1))" "snd (index_gtf g key (column s1))" t]
      small
    by simp
  have "heap (listed s1 (snd (index_gtf g key (column s1))) t) ! length (heap s1) = heap s1 ! p1"
    by (simp add: listed_table) (simp add: s1 p1 listed_table)
  moreover have "heap (listed s1 (snd (index_gtf g key (column s1))) t) ! p1 = heap s1 ! p1"
    by (simp add: listed_def s1 p1 nth_append)
  ultimately show "\<exists>p2 s2. run s1 = Inr (Some p2, s2) \<and> heap s2 ! p2 = heap s1 ! p1
             \<and> heap s2 ! p1 = heap s1 ! p1"
    using run2 by blast
next
  assume a: "get_attribute_list get_all_attributes g' s = Inr (Some q1, t1)"
  from get_attribute_list_Inr [OF a] obtain l where l: "get_all_attributes g' = Some l"
    and q1: "q1 = length (heap s)"
    and t1: "t1 = \<lparr>heap = heap s @
                      [\<lparr>size_TTEXT = nb l,
                        data_TTEXT = map (\<lambda>j. [list l ! j]) [0..<nat (nb l)]\<rparr>],
                    vret = Some (length (heap s)), column = column s\<rparr>"
    by auto
  have le: "nb l \<le> int (length (list l))"
    using a l by (rule get_attribute_list_Inr_bound)
  obtain r2 t2 where run2: "get_attribute_list get_all_attributes g' t1 = Inr (r2, t2)"
    using get_attribute_list_succeeds [of get_all_attributes g' l t1] l le by blast
  from get_attribute_list_Inr [OF run2] l
  have r2: "r2 = Some (length (heap t1))"
    and t2: "t2 = \<lparr>heap = heap t1 @
                      [\<lparr>size_TTEXT = nb l,
                        data_TTEXT = map (\<lambda>j. [list l ! j]) [0..<nat (nb l)]\<rparr>],
                    vret = Some (length (heap t1)), column = column t1\<rparr>"
    by auto
  have "heap t2 ! length (heap t1) = heap t1 ! q1"
    by (simp add: t2) (simp add: t1 q1)
  moreover have "heap t2 ! q1 = heap t1 ! q1"
    by (simp add: t2 t1 q1 nth_append)
  ultimately show "\<exists>q2 t2. get_attribute_list get_all_attributes g' t1 = Inr (Some q2, t2)
             \<and> heap t2 ! q2 = heap t1 ! q1 \<and> heap t2 ! q1 = heap t1 ! q1"
    using run2 r2 by blast
qed

lemma example_feature_table:
  "map row_of (inorder (build_index [''exon'', ''exon'', ''gene'', ''exon'']))
     = [[''3'', ''exon''], [''1'', ''gene'']]"
  by (simp add: example_feature_index row_of_def sprintf_d_examples)

theorem repeated_call_same_table_witness:
  "index_entry_point index_gtf_spec example_gtf ''feature''
     (get_feature_list index_gtf_spec example_gtf)
   \<and> (\<exists>p1 s1. get_feature_list index_gtf_spec example_gtf start = Inr (Some p1, s1)
         \<and> (\<exists>p2 s2. get_feature_list index_gtf_spec example_gtf s1 = Inr (Some p2, s2)
               \<and> heap s2 ! p2 = heap s1 ! p1 \<and> heap s2 ! p1 = heap s1 ! p1))
   \<and> (\<exists>q1 t1. get_attribute_list example_attributes example_gtf start = Inr (Some q1, t1)
         \<and> (\<exists>q2 t2. get_attribute_list example_attributes example_gtf t1 = Inr (Some q2, t2)
               \<and> heap t2 ! q2 = heap t1 ! q1 \<and> heap t2 ! q1 = heap t1 ! q1))"
proof -
  have h1: "index_entry_point index_gtf_spec example_gtf ''feature''
     (get_feature_list index_gtf_spec example_gtf)"
    by (simp add: index_entry_point_def)
  have same: "index_data (snd (index_gtf_spec example_gtf ''feature'' (column s1)))
                 (fst (index_gtf_spec example_gtf ''feature'' (column s1)))
              = index_data (snd (index_gtf_spec example_gtf ''feature'' (column start)))
                 (fst (index_gtf_spec example_gtf ''feature'' (column start)))" for s1
    by (simp add: index_gtf_spec_def)
  show ?thesis
    using h1 same example_feature_run example_attributes_run
      repeated_call_same_table
        [of index_gtf_spec example_gtf "''feature''" "get_feature_list index_gtf_spec example_gtf"
            start 0 _ example_attributes example_gtf 0]
    by blast
qed

text \<open>
  C7. A call that returns changes the memory in this way only: one new table exists, at
  a fresh address, which is the value returned and the value of \<^verbatim>\<open>vret\<close>; every table
  that existed before is unchanged; and the global \<^verbatim>\<open>column\<close>, which holds every index,
  is as \<^verbatim>\<open>index_gtf\<close> left it (for \<^verbatim>\<open>get_attribute_list\<close>, as it was before the call):
  the traversal writes neither to the index nor to the dataset, which the entry points
  only hand to the collaborators.
\<close>

theorem entry_points_frame:
  "(index_entry_point index_gtf g key run \<and> run s = Inr (r, s')
      \<longrightarrow> column s' = snd (index_gtf g key (column s))
          \<and> take (length (heap s)) (heap s') = heap s
          \<and> length (heap s') = length (heap s) + 1
          \<and> r = Some (length (heap s)) \<and> vret s' = r)
   \<and> (get_attribute_list get_all_attributes g' s = Inr (r', s'')
      \<longrightarrow> column s'' = column s
          \<and> take (length (heap s)) (heap s'') = heap s
          \<and> length (heap s'') = length (heap s) + 1
          \<and> r' = Some (length (heap s)) \<and> vret s'' = r')"
proof (intro conjI impI)
  assume a: "index_entry_point index_gtf g key run \<and> run s = Inr (r, s')"
  then obtain t where r: "r = Some (length (heap s))"
    and s': "s' = listed s (snd (index_gtf g key (column s))) t"
    using index_entry_point_Inr [of index_gtf g key run s r s'] by blast
  show "column s' = snd (index_gtf g key (column s))"
    and "take (length (heap s)) (heap s') = heap s"
    and "length (heap s') = length (heap s) + 1"
    and "r = Some (length (heap s))" and "vret s' = r"
    by (simp_all add: r s' listed_fields)
next
  assume "get_attribute_list get_all_attributes g' s = Inr (r', s'')"
  from get_attribute_list_Inr [OF this]
  show "column s'' = column s"
    and "take (length (heap s)) (heap s'') = heap s"
    and "length (heap s'') = length (heap s) + 1"
    and "r' = Some (length (heap s))" and "vret s'' = r'"
    by auto
qed

theorem entry_points_frame_witness:
  "index_entry_point index_gtf_spec example_gtf ''feature''
     (get_feature_list index_gtf_spec example_gtf)
   \<and> (\<exists>r s'. get_feature_list index_gtf_spec example_gtf start = Inr (r, s')
         \<and> column s' = snd (index_gtf_spec example_gtf ''feature'' (column start))
         \<and> take (length (heap start)) (heap s') = heap start
         \<and> length (heap s') = length (heap start) + 1
         \<and> r = Some (length (heap start)) \<and> vret s' = r)
   \<and> (\<exists>r' s''. get_attribute_list example_attributes example_gtf start = Inr (r', s'')
         \<and> column s'' = column start
         \<and> take (length (heap start)) (heap s'') = heap start
         \<and> length (heap s'') = length (heap start) + 1
         \<and> r' = Some (length (heap start)) \<and> vret s'' = r')"
proof -
  have h1: "index_entry_point index_gtf_spec example_gtf ''feature''
     (get_feature_list index_gtf_spec example_gtf)"
    by (simp add: index_entry_point_def)
  show ?thesis
    using h1 example_feature_run example_attributes_run
      entry_points_frame
        [of index_gtf_spec example_gtf "''feature''" "get_feature_list index_gtf_spec example_gtf"
            start "Some 0" _ example_attributes example_gtf "Some 0"]
    by blast
qed

subsection \<open>The example of the specification\<close>

lemma start_fields: "heap start = []" "vret start = None" "column start = []"
  by (simp_all add: start_def)

text \<open>
  C8, as the code has it, with the index built as the specification describes (ascending
  lexicographic order of the values): for the dataset whose feature column holds
  exon, exon, gene, exon, \<^verbatim>\<open>get_feature_list\<close> returns exactly the rows
  \<open>["3", "exon"]\<close> and \<open>["1", "gene"]\<close>, in that order.
\<close>

theorem feature_example_rows:
  "rows_returned (get_feature_list index_gtf_spec example_gtf start)
     = Some [[''3'', ''exon''], [''1'', ''gene'']]"
  unfolding example_feature_run rows_returned_def
  by (simp add: rows_at_def listed_def start_def example_feature_table)

text \<open>
  C8, as stated, fails: for that dataset the rows returned are not \<open>["1", "gene"]\<close>
  followed by \<open>["3", "exon"]\<close>.
\<close>

theorem feature_example_rows_not_as_claimed:
  "rows_returned (get_feature_list index_gtf_spec example_gtf start)
     \<noteq> Some [[''1'', ''gene''], [''3'', ''exon'']]"
  unfolding example_feature_run rows_returned_def
  by (simp add: rows_at_def listed_def start_def example_feature_table)

subsection \<open>Two calls in one process\<close>

lemma statements_of_first:
  assumes "index_gtf g key (column s) = (h, cols)" and "index_data cols h = Inr t"
    and "length (inorder t) < 268435456"
  shows "run_schedule index_gtf (First # First # First # First # rest) (call g key, b, s)
     = run_schedule index_gtf rest
         ((call g key)\<lparr>pc := after_return, index_id := h,
            returned_value := Some (length (heap s))\<rparr>, b, listed s cols t)"
  using assms
  by (simp add: statement_def call_def bookmem_TTEXT_def state_all_updated walk_fresh_table
      listed_def)

lemma statements_of_second:
  assumes "index_gtf g key (column s) = (h, cols)" and "index_data cols h = Inr t"
    and "length (inorder t) < 268435456"
  shows "run_schedule index_gtf (Second # Second # Second # Second # rest) (a, call g key, s)
     = run_schedule index_gtf rest
         (a, (call g key)\<lparr>pc := after_return, index_id := h,
            returned_value := Some (length (heap s))\<rparr>, listed s cols t)"
  using assms
  by (simp add: statement_def call_def bookmem_TTEXT_def state_all_updated walk_fresh_table
      listed_def)

lemma one_call_alone:
  "run_schedule index_gtf [First, First, First, First] (call g key, b, s) =
     (case get_attribute_values_list index_gtf g key s of
        Inl e \<Rightarrow> Inl e
      | Inr (r, s') \<Rightarrow>
          Inr ((call g key)\<lparr>pc := after_return,
                 index_id := fst (index_gtf g key (column s)), returned_value := r\<rparr>, b, s'))"
proof (cases "index_gtf g key (column s)")
  case (Pair h cols)
  show ?thesis
  proof (cases "index_data cols h")
    case (Inl e)
    with Pair show ?thesis
      by (simp add: get_attribute_values_list_cases statement_def call_def bookmem_TTEXT_def)
  next
    case (Inr t)
    with Pair show ?thesis
      by (simp add: get_attribute_values_list_cases statement_def call_def bookmem_TTEXT_def
          state_all_updated walk_fresh_table listed_def)
  qed
qed

lemma rows_at_listed:
  "rows_at (Some (length (heap s))) (listed s cols t) = Some (map row_of (inorder t))"
  by (simp add: rows_at_def listed_def)

lemma rows_at_listed_earlier:
  "rows_at (Some (length (heap s))) (listed (listed s cols t) cols' t')
     = Some (map row_of (inorder t))"
  by (simp add: rows_at_def listed_def nth_append)

text \<open>
  C9, as the code has it. Two calls of which the first returns before the second
  begins, on any two datasets and keys whose indexes exist and have fewer than \<open>2^28\<close>
  entries, do not touch each other's tables: at the end the first caller holds exactly the rows of its own index and the
  second caller exactly the rows of its own.
\<close>

theorem calls_in_sequence_keep_their_tables:
  assumes "index_gtf ga ka (column s) = (ha, ca)" and "index_data ca ha = Inr ta"
    and "index_gtf gb kb ca = (hb, cb)" and "index_data cb hb = Inr tb"
    and "length (inorder ta) < 268435456" and "length (inorder tb) < 268435456"
  shows "both_rows
           (run_schedule index_gtf
              [First, First, First, First, Second, Second, Second, Second]
              (call ga ka, call gb kb, s))
         = Inr (Some (map row_of (inorder ta)), Some (map row_of (inorder tb)))"
proof -
  let ?a = "(call ga ka)\<lparr>pc := after_return, index_id := ha,
              returned_value := Some (length (heap s))\<rparr>"
  let ?s1 = "listed s ca ta"
  let ?b = "(call gb kb)\<lparr>pc := after_return, index_id := hb,
              returned_value := Some (length (heap ?s1))\<rparr>"
  have c1: "index_gtf gb kb (column ?s1) = (hb, cb)"
    using assms(3) by (simp add: listed_fields)
  have "run_schedule index_gtf [First, First, First, First, Second, Second, Second, Second]
          (call ga ka, call gb kb, s)
        = run_schedule index_gtf [Second, Second, Second, Second] (?a, call gb kb, ?s1)"
    using statements_of_first
      [of index_gtf ga ka s ha ca ta "[Second, Second, Second, Second]" "call gb kb"]
      assms(1,2,5)
    by simp
  also have "\<dots> = run_schedule index_gtf [] (?a, ?b, listed ?s1 cb tb)"
    using statements_of_second [of index_gtf gb kb ?s1 hb cb tb "[]" ?a] c1 assms(4,6)
    by simp
  finally show ?thesis
    by (simp add: both_rows_def rows_at_listed rows_at_listed_earlier)
qed

lemma example_index_gtf_seqid:
  "index_gtf_spec example_gtf ''seqid'' cols =
     (Some \<lparr>column_ID = 0, index_rank = 0\<rparr>,
      [\<lparr>index = [\<lparr>data_INDEX = build_index [''chr2'', ''chr1'', ''chr1'', ''chr2'']\<rparr>]\<rparr>,
       \<lparr>index = [\<lparr>data_INDEX = build_index [''exon'', ''exon'', ''gene'', ''exon'']\<rparr>]\<rparr>])"
  by (simp add: index_gtf_spec_def example_gtf_def)

lemma example_index_data_seqid:
  "index_data
     [\<lparr>index = [\<lparr>data_INDEX = build_index [''chr2'', ''chr1'', ''chr1'', ''chr2'']\<rparr>]\<rparr>,
      \<lparr>index = [\<lparr>data_INDEX = build_index [''exon'', ''exon'', ''gene'', ''exon'']\<rparr>]\<rparr>]
     (Some \<lparr>column_ID = 0, index_rank = 0\<rparr>)
   = Inr (build_index [''chr2'', ''chr1'', ''chr1'', ''chr2''])"
  by (simp add: index_data_def deref_at_def)

lemma example_seqid_index:
  "build_index [''chr2'', ''chr1'', ''chr1'', ''chr2''] =
     Node (Node Null \<lparr>token = ''chr1'', nb_row = 2\<rparr> Null) \<lparr>token = ''chr2'', nb_row = 2\<rparr> Null"
  by (simp add: build_index_def)

lemma example_seqid_index_small:
  "length (inorder (build_index [''chr2'', ''chr1'', ''chr1'', ''chr2''])) < 268435456"
  by (simp add: example_seqid_index)

lemma example_seqid_table:
  "map row_of (inorder (build_index [''chr2'', ''chr1'', ''chr1'', ''chr2'']))
     = [[''2'', ''chr1''], [''2'', ''chr2'']]"
  by (simp add: example_seqid_index row_of_def sprintf_d_examples)

theorem calls_in_sequence_keep_their_tables_witness:
  "both_rows
     (run_schedule index_gtf_spec
        [First, First, First, First, Second, Second, Second, Second]
        (call example_gtf ''feature'', call example_gtf ''seqid'', start))
   = Inr (Some [[''3'', ''exon''], [''1'', ''gene'']], Some [[''2'', ''chr1''], [''2'', ''chr2'']])"
  using calls_in_sequence_keep_their_tables
    [of index_gtf_spec example_gtf "''feature''" start _ _ _ example_gtf "''seqid''",
     OF example_index_gtf_feature example_index_data_feature
        example_index_gtf_seqid example_index_data_seqid
        example_feature_index_small example_seqid_index_small]
  by (simp add: example_feature_table example_seqid_table)

text \<open>
  C9, as stated, fails: two calls on two different keys of the same dataset, of which
  the second executes line 128 between line 128 and line 133 of the first, return the
  same table, and it holds the rows of both calls. Both write through the one global
  \<^verbatim>\<open>vret\<close>.
\<close>

theorem interleaved_calls_share_one_table:
  "both_rows
     (run_schedule index_gtf_spec
        [First, Second, First, First, First, Second, Second, Second]
        (call example_gtf ''feature'', call example_gtf ''seqid'', start))
   = Inr (Some [[''3'', ''exon''], [''1'', ''gene''], [''2'', ''chr1''], [''2'', ''chr2'']],
          Some [[''3'', ''exon''], [''1'', ''gene''], [''2'', ''chr1''], [''2'', ''chr2'']])
   \<and> both_rows
     (run_schedule index_gtf_spec
        [First, Second, First, First, First, Second, Second, Second]
        (call example_gtf ''feature'', call example_gtf ''seqid'', start))
   \<noteq> Inr (Some [[''3'', ''exon''], [''1'', ''gene'']], Some [[''2'', ''chr1''], [''2'', ''chr2'']])"
  by code_simp

end
